theory Spec2Isabelle
  imports Complex_Main "HOL-Library.Word"
begin

unbundle bit_operations_syntax

section \<open>JavaScript strings\<close>

text \<open>
  The scripts work on JavaScript strings. A string is modelled as a list of code units
  restricted to the Latin-1 range, which is what a HOL \<open>char\<close> holds. The built-in
  operations used by the sources are written out: \<open>trim\<close>, \<open>toLowerCase\<close>,
  \<open>includes\<close>, \<open>replace(/\s+/g, " ")\<close>, \<open>slice\<close>.
\<close>

definition js_isSpace :: "char \<Rightarrow> bool" where
  "js_isSpace c = (of_char c \<in> {9::nat, 10, 11, 12, 13, 32, 160})"

definition js_trim :: "string \<Rightarrow> string" where
  "js_trim s = rev (dropWhile js_isSpace (rev (dropWhile js_isSpace s)))"

text \<open>
  Upper-case letters of Latin-1 are the code units 65..90 and 192..222 without 215;
  the lower-case letter is 32 higher, which sets bit 5.
\<close>

definition js_lowerChar :: "char \<Rightarrow> char" where
  "js_lowerChar c =
     (let n = (of_char c :: nat)
      in if (65 \<le> n \<and> n \<le> 90) \<or> (192 \<le> n \<and> n \<le> 222 \<and> n \<noteq> 215)
         then (case c of Char b0 b1 b2 b3 b4 b5 b6 b7 \<Rightarrow> Char b0 b1 b2 b3 b4 True b6 b7)
         else c)"

definition js_toLowerCase :: "string \<Rightarrow> string" where
  "js_toLowerCase s = map js_lowerChar s"

fun js_startsWith :: "string \<Rightarrow> string \<Rightarrow> bool" where
  "js_startsWith s [] = True"
| "js_startsWith [] (p # ps) = False"
| "js_startsWith (c # cs) (p # ps) = (c = p \<and> js_startsWith cs ps)"

fun js_includes :: "string \<Rightarrow> string \<Rightarrow> bool" where
  "js_includes [] t = (t = [])"
| "js_includes (c # cs) t = (js_startsWith (c # cs) t \<or> js_includes cs t)"

text \<open>\<open>s.replace(/\s+/g, " ")\<close>: every maximal run of white space becomes one blank.\<close>

fun collapseFrom :: "bool \<Rightarrow> string \<Rightarrow> string" where
  "collapseFrom inRun [] = []"
| "collapseFrom inRun (c # cs) =
     (if js_isSpace c
      then (if inRun then collapseFrom True cs else CHR '' '' # collapseFrom True cs)
      else c # collapseFrom False cs)"

definition js_collapseSpaces :: "string \<Rightarrow> string" where
  "js_collapseSpaces s = collapseFrom False s"

text \<open>JavaScript truthiness of a string: the empty string is falsy.\<close>

definition truthy :: "string \<Rightarrow> bool" where
  "truthy s = (s \<noteq> [])"


section \<open>Selecting an option of a native select element\<close>

text \<open>
  \<open>selectOption\<close> of \<open>content/content-script.js\<close>. An option carries its
  \<open>value\<close> and its \<open>text\<close>; the select element carries its tag name, its options in
  document order, the index of the selected option and the events dispatched on it.
  Assigning \<open>selectEl.value\<close> selects the first option that has this value.
\<close>

record html_option =
  opt_value :: string
  opt_text :: string

record select_el =
  sel_tagName :: string
  sel_options :: "html_option list"
  sel_selectedIndex :: "nat option"
  sel_events :: "string list"

fun indexOfValue :: "html_option list \<Rightarrow> string \<Rightarrow> nat option" where
  "indexOfValue [] v = None"
| "indexOfValue (opt # opts) v =
     (if opt_value opt = v then Some 0 else map_option Suc (indexOfValue opts v))"

text \<open>
  The request \<open>valueOrText\<close> may be \<open>null\<close> or \<open>undefined\<close> (\<open>None\<close>);
  \<open>String(valueOrText ?? "").trim()\<close> is the text that is compared.
\<close>

definition requestText :: "string option \<Rightarrow> string" where
  "requestText valueOrText = js_trim (case valueOrText of None \<Rightarrow> [] | Some s \<Rightarrow> s)"

definition exactMatch :: "string \<Rightarrow> html_option \<Rightarrow> bool" where
  "exactMatch v opt = (opt_value opt = v \<or> js_trim (opt_text opt) = v)"

definition containsMatch :: "string \<Rightarrow> html_option \<Rightarrow> bool" where
  "containsMatch v opt = js_includes (js_toLowerCase (opt_text opt)) (js_toLowerCase v)"

definition selectOption ::
  "select_el option \<Rightarrow> string option \<Rightarrow> html_option option \<times> select_el option" where
  "selectOption selEl valueOrText =
     (case selEl of
        None \<Rightarrow> (None, None)
      | Some sel \<Rightarrow>
          if js_toLowerCase (sel_tagName sel) \<noteq> ''select'' then (None, Some sel)
          else
            let v = requestText valueOrText;
                found1 = find (exactMatch v) (sel_options sel);
                found = (if found1 = None \<and> truthy v
                         then find (containsMatch v) (sel_options sel)
                         else found1)
            in case found of
                 None \<Rightarrow> (None, Some sel)
               | Some opt \<Rightarrow>
                   (Some opt,
                    Some (sel\<lparr>sel_selectedIndex := indexOfValue (sel_options sel) (opt_value opt),
                              sel_events := sel_events sel @ [''input'', ''change'']\<rparr>)))"

text \<open>
  The three tiers as the specification words them: exact value first, then exact
  trimmed text, then case-insensitive containment, each tier scanning all options.
\<close>

definition selectOption_three_tiers :: "html_option list \<Rightarrow> string \<Rightarrow> html_option option" where
  "selectOption_three_tiers opts v =
     (case find (\<lambda>opt. opt_value opt = v) opts of
        Some opt \<Rightarrow> Some opt
      | None \<Rightarrow>
          (case find (\<lambda>opt. js_trim (opt_text opt) = v) opts of
             Some opt \<Rightarrow> Some opt
           | None \<Rightarrow> find (containsMatch v) opts))"

definition ny_select :: select_el where
  "ny_select = \<lparr>sel_tagName = ''SELECT'',
                sel_options = [\<lparr>opt_value = ''ny'', opt_text = ''New York''\<rparr>,
                               \<lparr>opt_value = ''ny2'', opt_text = ''NY''\<rparr>],
                sel_selectedIndex = Some 0, sel_events = []\<rparr>"

definition swapped_select :: select_el where
  "swapped_select = \<lparr>sel_tagName = ''SELECT'',
                     sel_options = [\<lparr>opt_value = ''x'', opt_text = ''NY''\<rparr>,
                                    \<lparr>opt_value = ''NY'', opt_text = ''New York''\<rparr>],
                     sel_selectedIndex = Some 0, sel_events = []\<rparr>"


section \<open>Elements of the page\<close>

text \<open>
  An element as the scripts read it: the properties and computed-style values that
  \<open>content/dom-extractor.js\<close> and \<open>utils/uid-generator.js\<close> consult. Absent string
  properties and attributes that are only tested for truthiness are the empty string.
  Lengths of the bounding rectangle are reals; the scripts only compare them.

  The \<open>value\<close> property is a string on form controls, a number on \<open>li\<close>,
  \<open>progress\<close> and \<open>meter\<close> elements, and undefined elsewhere.
\<close>

datatype js_value = JsUndefined | JsString string | JsNumber real

definition valueTruthy :: "js_value \<Rightarrow> bool" where
  "valueTruthy v = (case v of JsUndefined \<Rightarrow> False | JsString s \<Rightarrow> truthy s | JsNumber n \<Rightarrow> n \<noteq> 0)"

record computed_style =
  st_display :: string
  st_visibility :: string
  st_opacity :: string
  st_pointerEvents :: string
  st_overflowY :: string
  st_overflow :: string

record dom_rect =
  r_top :: real
  r_left :: real
  r_bottom :: real
  r_right :: real
  r_width :: real
  r_height :: real

record element =
  el_node :: nat
  el_tagName :: string
  el_id :: string
  el_name :: string
  el_type :: string
  el_className :: string
  el_value :: js_value
  el_placeholder :: string
  el_textContent :: string
  el_alt :: string
  el_title :: string
  el_attributes :: "(string \<times> string) list"
  el_style :: computed_style
  el_rect :: dom_rect
  el_isConnected :: bool
  el_disabled :: bool
  el_tabIndex :: int
  el_onclickIsFunction :: bool
  el_isBody :: bool
  el_isDocumentElement :: bool
  el_scrollHeight :: int
  el_clientHeight :: int
  el_childIndex :: nat
  el_sameTagIndex :: nat
  el_sameTagCount :: nat

text \<open>
  \<open>el_node\<close> is the identity of the node. \<open>el_childIndex\<close> is the position of the
  element among the children of its parent, \<open>el_sameTagIndex\<close> its position among the
  siblings of the same tag and \<open>el_sameTagCount\<close> the number of those siblings, itself
  included. The subtree below an element is a \<open>dom_node\<close>; an element in context comes
  with its subtree and its chain of ancestors, the parent first.
\<close>

datatype dom_node = DomNode (node_el: element) (node_children: "dom_node list")

record elem_ctx =
  ctx_node :: dom_node
  ctx_ancestors :: "element list"

definition ctx_el :: "elem_ctx \<Rightarrow> element" where
  "ctx_el c = node_el (ctx_node c)"

definition ctx_children :: "elem_ctx \<Rightarrow> element list" where
  "ctx_children c = map node_el (node_children (ctx_node c))"

fun descendants :: "dom_node \<Rightarrow> element list" where
  "descendants (DomNode e cs) = concat (map (\<lambda>c. node_el c # descendants c) cs)"

definition getAttribute :: "element \<Rightarrow> string \<Rightarrow> string option" where
  "getAttribute e a = map_of (el_attributes e) a"

definition hasAttribute :: "element \<Rightarrow> string \<Rightarrow> bool" where
  "hasAttribute e a = (getAttribute e a \<noteq> None)"

text \<open>\<open>x || ""\<close> on an attribute that may be \<open>null\<close>.\<close>

definition orEmpty :: "string option \<Rightarrow> string" where
  "orEmpty v = (case v of None \<Rightarrow> [] | Some s \<Rightarrow> s)"

section \<open>The snapshot extractor\<close>

subsection \<open>Visibility and actionability\<close>

definition styleHidden :: "computed_style \<Rightarrow> bool" where
  "styleHidden st =
     (st_display st = ''none'' \<or> st_visibility st = ''hidden'' \<or> st_opacity st = ''0'')"

text \<open>The test applied to each child of an element of zero width or height.\<close>

definition childIsVisible :: "element \<Rightarrow> bool" where
  "childIsVisible child =
     (if st_display (el_style child) = ''none'' \<or> st_visibility (el_style child) = ''hidden''
      then False
      else r_width (el_rect child) > 1 \<and> r_height (el_rect child) > 1)"

text \<open>
  \<open>findScrollableAncestor\<close>: the nearest of the first six ancestors whose vertical
  overflow value mentions \<open>auto\<close>, \<open>scroll\<close> or \<open>overlay\<close> and that overflows.
\<close>

definition isScrollable :: "element \<Rightarrow> bool" where
  "isScrollable node =
     (let overflowY = (if truthy (st_overflowY (el_style node)) then st_overflowY (el_style node)
                       else st_overflow (el_style node))
      in (js_includes overflowY ''auto'' \<or> js_includes overflowY ''scroll''
          \<or> js_includes overflowY ''overlay'')
         \<and> el_scrollHeight node > el_clientHeight node + 1)"

definition findScrollableAncestor :: "elem_ctx \<Rightarrow> element option" where
  "findScrollableAncestor c = find isScrollable (take 6 (ctx_ancestors c))"

definition isElementVisible :: "elem_ctx \<Rightarrow> bool" where
  "isElementVisible c =
     (let element = ctx_el c; rect = el_rect element
      in if styleHidden (el_style element) then False
         else if (r_width rect = 0 \<or> r_height rect = 0)
                 \<and> \<not> list_ex childIsVisible (ctx_children c) then False
         else if list_ex (\<lambda>ancestor. styleHidden (el_style ancestor)) (take 4 (ctx_ancestors c))
              then False
         else (case findScrollableAncestor c of
                 None \<Rightarrow> True
               | Some scroller \<Rightarrow>
                   if \<not> el_isBody scroller \<and> \<not> el_isDocumentElement scroller
                   then (let srect = el_rect scroller;
                             horizontallyVisible =
                               (r_right rect > r_left srect \<and> r_left rect < r_right srect);
                             verticallyVisible =
                               (r_bottom rect > r_top srect \<and> r_top rect < r_bottom srect)
                         in horizontallyVisible \<and> verticallyVisible)
                   else True))"

definition isActionableElement :: "elem_ctx \<Rightarrow> bool" where
  "isActionableElement c =
     (let element = ctx_el c
      in if \<not> isElementVisible c then False
         else if st_pointerEvents (el_style element) = ''none'' then False
         else if el_disabled element \<or> getAttribute element ''aria-disabled'' = Some ''true''
              then False
         else
           (let ariaHidden = js_toLowerCase (orEmpty (getAttribute element ''aria-hidden''));
                hasHref = hasAttribute element ''href'';
                hasOnClick = (el_onclickIsFunction element \<or> hasAttribute element ''onclick'');
                role = js_toLowerCase (orEmpty (getAttribute element ''role''));
                focusable = (el_tabIndex element \<ge> 0)
            in \<not> (ariaHidden = ''true'' \<and> \<not> hasHref \<and> \<not> hasOnClick \<and> \<not> focusable
                   \<and> \<not> truthy role)))"

text \<open>
  \<open>getInteractiveElements\<close> collects candidates from the document, its open shadow
  roots and same-origin frames, without duplicates, and returns those that pass
  \<open>isActionableElement\<close>. The collected candidates, in collection order, are the argument.
\<close>

definition getInteractiveElements :: "elem_ctx list \<Rightarrow> elem_ctx list" where
  "getInteractiveElements candidates = filter isActionableElement candidates"

subsection \<open>Numbers as text\<close>

definition digitChar :: "nat \<Rightarrow> char" where
  "digitChar d = ''0123456789abcdefghijklmnopqrstuvwxyz'' ! d"

function showBase :: "nat \<Rightarrow> nat \<Rightarrow> string" where
  "showBase b n =
     (if b < 2 \<or> 36 < b then []
      else if n < b then [digitChar n]
      else showBase b (n div b) @ [digitChar (n mod b)])"
  by pat_completeness auto
termination
  by (relation "measure (\<lambda>(b, n). n)") auto

definition showNat :: "nat \<Rightarrow> string" where
  "showNat n = showBase 10 n"

subsection \<open>Identifiers\<close>

definition tokenChar :: "char \<Rightarrow> bool" where
  "tokenChar c =
     (let n = (of_char c :: nat)
      in (97 \<le> n \<and> n \<le> 122) \<or> (65 \<le> n \<and> n \<le> 90) \<or> (48 \<le> n \<and> n \<le> 57)
         \<or> c = CHR ''_'' \<or> c = CHR '':'' \<or> c = CHR ''-'' \<or> c = CHR ''.'')"

definition sanitizeToken :: "string \<Rightarrow> string" where
  "sanitizeToken str = take 80 (map (\<lambda>c. if tokenChar c then c else CHR ''_'') str)"

text \<open>
  \<open>simpleHash\<close>: \<open>hash = (hash << 5) - hash + char\<close>, cut to a signed 32-bit integer
  at each step; the result is the absolute value in base 36.
\<close>

fun hashLoop :: "32 word \<Rightarrow> string \<Rightarrow> 32 word" where
  "hashLoop hash [] = hash"
| "hashLoop hash (c # cs) = hashLoop (push_bit 5 hash - hash + of_nat (of_char c)) cs"

definition simpleHash :: "string \<Rightarrow> string" where
  "simpleHash str = showBase 36 (nat \<bar>sint (hashLoop 0 str)\<bar>)"

text \<open>
  \<open>getElementText\<close>. The text is the first truthy one of value, bracketed placeholder,
  text content, alt and title; \<open>text.trim()\<close> then throws a TypeError when the value
  chosen is a number. The result is the text, or \<open>Inl\<close> the exception.
\<close>

definition getElementText :: "element \<Rightarrow> string + string" where
  "getElementText element =
     (let text0 = (if valueTruthy (el_value element) then el_value element
                   else if truthy (el_placeholder element)
                        then JsString (''['' @ el_placeholder element @ '']'')
                   else if truthy (el_textContent element) then JsString (el_textContent element)
                   else if truthy (el_alt element) then JsString (el_alt element)
                   else if truthy (el_title element) then JsString (el_title element)
                   else JsString [])
      in case text0 of
           JsString s \<Rightarrow>
             (let text = js_collapseSpaces (js_trim s)
              in Inr (if length text > 100 then take 97 text @ ''...'' else text))
         | JsNumber n \<Rightarrow> Inl ''TypeError: text.trim is not a function''
         | JsUndefined \<Rightarrow> Inl ''TypeError: text.trim is not a function'')"

text \<open>
  \<open>getElementPath\<close> walks from the element up to the body, or up to the first element
  that has an id. The chain is the element followed by its ancestors.
\<close>

fun pathSegments :: "element list \<Rightarrow> string list \<Rightarrow> string list" where
  "pathSegments [] path = path"
| "pathSegments (current # rest) path =
     (if el_isBody current then path
      else
        let selector = js_toLowerCase (el_tagName current)
        in if truthy (el_id current) then (selector @ ''#'' @ el_id current) # path
           else
             let selector' = (if rest \<noteq> []
                              then selector @ '':nth-child('' @ showNat (el_childIndex current + 1) @ '')''
                              else selector)
             in pathSegments rest (selector' # path))"

fun js_join :: "string \<Rightarrow> string list \<Rightarrow> string" where
  "js_join sep [] = []"
| "js_join sep [x] = x"
| "js_join sep (x # y # ys) = x @ sep @ js_join sep (y # ys)"

definition getElementPath :: "elem_ctx \<Rightarrow> string" where
  "getElementPath c = js_join '' > '' (pathSegments (ctx_el c # ctx_ancestors c) [])"

text \<open>\<open>str.split(/\s+/)\<close>.\<close>

fun splitFrom :: "string \<Rightarrow> bool \<Rightarrow> string \<Rightarrow> string list" where
  "splitFrom cur inRun [] = [rev cur]"
| "splitFrom cur inRun (c # cs) =
     (if js_isSpace c
      then (if inRun then splitFrom cur True cs else rev cur # splitFrom [] True cs)
      else splitFrom (c # cur) False cs)"

definition js_splitSpaces :: "string \<Rightarrow> string list" where
  "js_splitSpaces s = splitFrom [] False s"

text \<open>\<open>a || b\<close> on attribute values: the first truthy one, else the last.\<close>

definition orElse :: "string option \<Rightarrow> string option \<Rightarrow> string option" where
  "orElse a b = (case a of Some s \<Rightarrow> if truthy s then Some s else b | None \<Rightarrow> b)"

text \<open>
  \<open>generateUID\<close>. The branches for a test hook, an id and a name return before the
  text of the element is read; the fingerprint branch reads it, and throws when
  \<open>getElementText\<close> does.
\<close>

definition generateUID :: "elem_ctx \<Rightarrow> nat \<Rightarrow> string + string" where
  "generateUID c index =
     (let element = ctx_el c;
          testId = orEmpty (orElse (getAttribute element ''data-testid'')
                             (orElse (getAttribute element ''data-test-id'')
                                     (getAttribute element ''data-test'')))
      in if truthy testId then Inr (''elem_test_'' @ sanitizeToken testId)
         else if truthy (el_id element) then Inr (''elem_id_'' @ sanitizeToken (el_id element))
         else if truthy (el_name element) then Inr (''elem_name_'' @ sanitizeToken (el_name element))
         else
           let tag = js_toLowerCase (el_tagName element);
               role = orEmpty (getAttribute element ''role'');
               type = el_type element;
               placeholder = orEmpty (getAttribute element ''placeholder'');
               ariaLabel = orEmpty (orElse (getAttribute element ''aria-label'')
                                           (getAttribute element ''aria-labelledby''));
               cls = js_join ''.'' (take 3 (js_splitSpaces (el_className element)))
           in (case getElementText element of
                 Inl err \<Rightarrow> Inl err
               | Inr elementText \<Rightarrow>
                   let text = take 40 elementText;
                       path = getElementPath c;
                       fingerprint = js_join ''|''
                                       (filter truthy
                                          [tag, role, type, placeholder, ariaLabel, cls, text, path]);
                       hash = simpleHash fingerprint
                   in Inr (''elem_'' @ hash @ ''_'' @ showNat index)))"

subsection \<open>Sample elements\<close>

definition plain_style :: computed_style where
  "plain_style = \<lparr>st_display = ''block'', st_visibility = ''visible'', st_opacity = ''1'',
                  st_pointerEvents = ''auto'', st_overflowY = ''visible'',
                  st_overflow = ''visible''\<rparr>"

definition box :: "real \<Rightarrow> real \<Rightarrow> dom_rect" where
  "box w h = \<lparr>r_top = 0, r_left = 0, r_bottom = h, r_right = w, r_width = w, r_height = h\<rparr>"

definition plain_element :: "nat \<Rightarrow> string \<Rightarrow> element" where
  "plain_element n tag =
     \<lparr>el_node = n, el_tagName = tag, el_id = [], el_name = [], el_type = [], el_className = [],
      el_value = JsUndefined, el_placeholder = [], el_textContent = [], el_alt = [], el_title = [],
      el_attributes = [], el_style = plain_style, el_rect = box 10 10, el_isConnected = True,
      el_disabled = False, el_tabIndex = 0, el_onclickIsFunction = False, el_isBody = False,
      el_isDocumentElement = False, el_scrollHeight = 0, el_clientHeight = 0,
      el_childIndex = 0, el_sameTagIndex = 0, el_sameTagCount = 1\<rparr>"

definition body_element :: element where
  "body_element = (plain_element 1 ''BODY'')\<lparr>el_isBody := True, el_rect := box 800 600\<rparr>"

text \<open>Two radio buttons of one group: they share the name, and have no id.\<close>

definition radio_red :: elem_ctx where
  "radio_red =
     \<lparr>ctx_node = DomNode ((plain_element 2 ''INPUT'')
                            \<lparr>el_name := ''color'', el_type := ''radio'', el_value := JsString ''red'',
                             el_attributes := [(''name'', ''color''), (''type'', ''radio''),
                                               (''value'', ''red'')],
                             el_sameTagCount := 2\<rparr>) [],
      ctx_ancestors = [body_element]\<rparr>"

definition radio_blue :: elem_ctx where
  "radio_blue =
     \<lparr>ctx_node = DomNode ((plain_element 3 ''INPUT'')
                            \<lparr>el_name := ''color'', el_type := ''radio'', el_value := JsString ''blue'',
                             el_attributes := [(''name'', ''color''), (''type'', ''radio''),
                                               (''value'', ''blue'')],
                             el_childIndex := 1, el_sameTagIndex := 1, el_sameTagCount := 2\<rparr>) [],
      ctx_ancestors = [body_element]\<rparr>"

text \<open>
  A link of zero size around an icon of 16 by 16, and a link of zero size whose only
  child is a wrapper of zero size around the same icon.
\<close>

definition icon :: dom_node where
  "icon = DomNode ((plain_element 5 ''IMG'')\<lparr>el_rect := box 16 16\<rparr>) []"

definition icon_link :: elem_ctx where
  "icon_link =
     \<lparr>ctx_node = DomNode ((plain_element 4 ''A'')
                            \<lparr>el_rect := box 0 0, el_attributes := [(''href'', ''/home'')]\<rparr>) [icon],
      ctx_ancestors = [body_element]\<rparr>"

definition wrapped_icon_link :: elem_ctx where
  "wrapped_icon_link =
     \<lparr>ctx_node = DomNode ((plain_element 4 ''A'')
                            \<lparr>el_rect := box 0 0, el_attributes := [(''href'', ''/home'')]\<rparr>)
                   [DomNode ((plain_element 6 ''SPAN'')\<lparr>el_rect := box 0 0\<rparr>) [icon]],
      ctx_ancestors = [body_element]\<rparr>"

text \<open>
  A list item of zero size with \<open>value="3"\<close>, an id and a tab index, around the same
  icon: its \<open>value\<close> property is the number 3.
\<close>

definition numbered_item :: elem_ctx where
  "numbered_item =
     \<lparr>ctx_node = DomNode ((plain_element 9 ''LI'')
                            \<lparr>el_id := ''three'', el_value := JsNumber 3, el_rect := box 0 0,
                             el_attributes := [(''id'', ''three''), (''value'', ''3''),
                                               (''tabindex'', ''0'')]\<rparr>) [icon],
      ctx_ancestors = [body_element]\<rparr>"

definition hidden_button :: elem_ctx where
  "hidden_button =
     \<lparr>ctx_node = DomNode ((plain_element 7 ''BUTTON'')
                            \<lparr>el_style := plain_style\<lparr>st_display := ''none''\<rparr>\<rparr>) [],
      ctx_ancestors = [body_element]\<rparr>"

text \<open>An element given a width and a height of one, everything else unchanged.\<close>

definition withUnitSize :: "elem_ctx \<Rightarrow> elem_ctx" where
  "withUnitSize c =
     (case ctx_node c of
        DomNode e cs \<Rightarrow>
          c\<lparr>ctx_node := DomNode (e\<lparr>el_rect := (el_rect e)\<lparr>r_width := 1, r_height := 1\<rparr>\<rparr>) cs\<rparr>)"


section \<open>The element registry and the resolver\<close>

text \<open>
  \<open>utils/uid-generator.js\<close>. The registry maps a uid to the locators recorded at the
  last capture, the time of that capture and the number of look-ups since.
\<close>

record locators =
  loc_selector :: string
  loc_xpath :: string
  loc_attributes :: "(string \<times> string) list option"
  loc_text :: string
  loc_tag :: string

record registry_entry = locators +
  re_timestamp :: int
  re_accessCount :: nat

type_synonym registry = "string \<rightharpoonup> registry_entry"

definition registerUID :: "int \<Rightarrow> string \<Rightarrow> locators \<Rightarrow> registry \<Rightarrow> registry" where
  "registerUID now uid selectors reg =
     reg(uid \<mapsto> locators.extend selectors \<lparr>re_timestamp = now, re_accessCount = 0\<rparr>)"

text \<open>
  The document as the resolver queries it. A query with a selector or an expression the
  browser rejects throws: \<open>Inl\<close> carries the message.
\<close>

record document =
  querySelector :: "string \<Rightarrow> string + element option"
  querySelectorAll :: "string \<Rightarrow> string + element list"
  evaluateXPath :: "string \<Rightarrow> string + element option"

definition isElementValid :: "element option \<Rightarrow> bool" where
  "isElementValid element =
     (case element of
        None \<Rightarrow> False
      | Some e \<Rightarrow>
          if \<not> el_isConnected e then False
          else if st_display (el_style e) = ''none'' \<or> st_visibility (el_style e) = ''hidden''
               then False
          else True)"

definition stableAttrs :: "string list" where
  "stableAttrs = [''id'', ''name'', ''data-testid'', ''data-test-id'']"

definition attrSelector :: "string \<Rightarrow> string \<Rightarrow> string" where
  "attrSelector key v = ''['' @ key @ ''=\"'' @ v @ ''\"]''"

text \<open>
  The first loop of \<open>findByAttributes\<close>: each stable attribute that has a value
  extends the selector, and the first query that does not throw is the result.
\<close>

fun stableLoop ::
  "document \<Rightarrow> (string \<times> string) list \<Rightarrow> string \<Rightarrow> string list \<Rightarrow> element option option" where
  "stableLoop doc attributes selector [] = None"
| "stableLoop doc attributes selector (attr # rest) =
     (case map_of attributes attr of
        None \<Rightarrow> stableLoop doc attributes selector rest
      | Some v \<Rightarrow>
          if \<not> truthy v then stableLoop doc attributes selector rest
          else
            let selector' = selector @ attrSelector attr v
            in (case querySelector doc selector' of
                  Inr r \<Rightarrow> Some r
                | Inl err \<Rightarrow> stableLoop doc attributes selector' rest))"

text \<open>The second loop: any other attribute whose query yields exactly one element.\<close>

fun otherLoop :: "document \<Rightarrow> string \<Rightarrow> (string \<times> string) list \<Rightarrow> element option" where
  "otherLoop doc tag [] = None"
| "otherLoop doc tag ((key, v) # rest) =
     (if key \<notin> set stableAttrs \<and> truthy v
      then (case querySelectorAll doc (tag @ attrSelector key v) of
              Inr [e] \<Rightarrow> Some e
            | Inr other \<Rightarrow> otherLoop doc tag rest
            | Inl err \<Rightarrow> otherLoop doc tag rest)
      else otherLoop doc tag rest)"

definition findByAttributes :: "document \<Rightarrow> (string \<times> string) list \<Rightarrow> string \<Rightarrow> element option" where
  "findByAttributes doc attributes tag =
     (case stableLoop doc attributes (if truthy tag then tag else ''*'') stableAttrs of
        Some r \<Rightarrow> r
      | None \<Rightarrow> otherLoop doc tag attributes)"

definition cleanText :: "string \<Rightarrow> string" where
  "cleanText text = js_collapseSpaces (js_toLowerCase (js_trim text))"

text \<open>\<open>findByText\<close>; \<open>querySelectorAll(tag)\<close> is not guarded in the source.\<close>

definition findByText :: "document \<Rightarrow> string \<Rightarrow> string \<Rightarrow> string + element option" where
  "findByText doc text tag =
     (case querySelectorAll doc tag of
        Inl err \<Rightarrow> Inl err
      | Inr elements \<Rightarrow>
          (case find (\<lambda>e. cleanText (el_textContent e) = cleanText text) elements of
             Some e \<Rightarrow> Inr (Some e)
           | None \<Rightarrow>
               Inr (find (\<lambda>e. js_includes (cleanText (el_textContent e)) (cleanText text)
                              \<or> js_includes (cleanText text) (cleanText (el_textContent e)))
                      elements)))"

text \<open>
  \<open>getElementByUID\<close>. The result is the registry after the look-up and either the
  element found, \<open>null\<close>, or the exception the unguarded text query raised.
\<close>

definition tryQuery :: "string + element option \<Rightarrow> element option" where
  "tryQuery r = (case r of Inl err \<Rightarrow> None | Inr e \<Rightarrow> if isElementValid e then e else None)"

definition getElementByUID ::
  "document \<Rightarrow> registry \<Rightarrow> string \<Rightarrow> registry \<times> (string + element option)" where
  "getElementByUID doc reg uid =
     (case reg uid of
        None \<Rightarrow> (reg, Inr None)
      | Some entry0 \<Rightarrow>
          let entry = entry0\<lparr>re_accessCount := re_accessCount entry0 + 1\<rparr>;
              reg' = reg(uid \<mapsto> entry);
              byCss = (if truthy (loc_selector entry)
                       then tryQuery (querySelector doc (loc_selector entry)) else None)
          in if byCss \<noteq> None then (reg', Inr byCss)
             else
               let byXPath = (if truthy (loc_xpath entry)
                              then tryQuery (evaluateXPath doc (loc_xpath entry)) else None)
               in if byXPath \<noteq> None then (reg', Inr byXPath)
                  else
                    let byAttrs = (case loc_attributes entry of
                                     None \<Rightarrow> None
                                   | Some attrs \<Rightarrow>
                                       tryQuery (Inr (findByAttributes doc attrs (loc_tag entry))))
                    in if byAttrs \<noteq> None then (reg', Inr byAttrs)
                       else if truthy (loc_text entry) \<and> truthy (loc_tag entry)
                       then (case findByText doc (loc_text entry) (loc_tag entry) of
                               Inl err \<Rightarrow> (reg', Inl err)
                             | Inr e \<Rightarrow> (reg', Inr (if isElementValid e then e else None)))
                       else (reg', Inr None))"

definition maxAge :: int where
  "maxAge = 30 * 60 * 1000"

definition cleanupRegistry :: "int \<Rightarrow> registry \<Rightarrow> registry" where
  "cleanupRegistry now reg =
     (\<lambda>uid. case reg uid of
               None \<Rightarrow> None
             | Some entry \<Rightarrow>
                 if now - re_timestamp entry > maxAge \<and> re_accessCount entry = 0 then None
                 else Some entry)"


subsection \<open>The resolution order as the specification words it\<close>

text \<open>
  Each strategy proposes at most one candidate; a strategy whose locator is missing, or
  whose query throws, proposes none. The first candidate that passes the liveness check
  is the result.
\<close>

definition cssCandidate :: "document \<Rightarrow> registry_entry \<Rightarrow> element option" where
  "cssCandidate doc entry =
     (if truthy (loc_selector entry)
      then (case querySelector doc (loc_selector entry) of Inr e \<Rightarrow> e | Inl err \<Rightarrow> None)
      else None)"

definition xpathCandidate :: "document \<Rightarrow> registry_entry \<Rightarrow> element option" where
  "xpathCandidate doc entry =
     (if truthy (loc_xpath entry)
      then (case evaluateXPath doc (loc_xpath entry) of Inr e \<Rightarrow> e | Inl err \<Rightarrow> None)
      else None)"

definition attributeCandidate :: "document \<Rightarrow> registry_entry \<Rightarrow> element option" where
  "attributeCandidate doc entry =
     (case loc_attributes entry of
        None \<Rightarrow> None
      | Some attrs \<Rightarrow> findByAttributes doc attrs (loc_tag entry))"

definition textCandidate :: "document \<Rightarrow> registry_entry \<Rightarrow> element option" where
  "textCandidate doc entry =
     (if truthy (loc_text entry) \<and> truthy (loc_tag entry)
      then (case findByText doc (loc_text entry) (loc_tag entry) of
              Inr e \<Rightarrow> e
            | Inl err \<Rightarrow> None)
      else None)"

definition firstAccepted :: "element option list \<Rightarrow> element option" where
  "firstAccepted candidates =
     (case find isElementValid candidates of Some c \<Rightarrow> c | None \<Rightarrow> None)"






subsection \<open>Sample documents and registries\<close>

text \<open>
  A document in which no query matches; a Save button with the id \<open>save\<close>, the entry a
  capture at time 0 records for it, and a document in which only the tag query finds it.
\<close>

definition empty_document :: document where
  "empty_document =
     \<lparr>querySelector = (\<lambda>s. Inr None), querySelectorAll = (\<lambda>s. Inr []),
      evaluateXPath = (\<lambda>s. Inr None)\<rparr>"

definition save_button :: element where
  "save_button =
     (plain_element 8 ''BUTTON'')
       \<lparr>el_id := ''save'', el_type := ''submit'', el_textContent := ''  Save   changes '',
        el_attributes := [(''id'', ''save''), (''type'', ''submit'')]\<rparr>"

definition button_document :: document where
  "button_document =
     \<lparr>querySelector = (\<lambda>s. Inr None),
      querySelectorAll = (\<lambda>s. if s = ''button'' then Inr [save_button] else Inr []),
      evaluateXPath = (\<lambda>s. Inr None)\<rparr>"

definition save_entry :: registry_entry where
  "save_entry =
     \<lparr>loc_selector = ''#save'', loc_xpath = ''//*[@id=\"save\"]'',
      loc_attributes = Some [(''id'', ''save''), (''type'', ''submit'')],
      loc_text = ''Save changes'', loc_tag = ''button'', re_timestamp = 0, re_accessCount = 0\<rparr>"

definition save_registry :: registry where
  "save_registry = Map.empty(''elem_id_save'' \<mapsto> save_entry)"








subsection \<open>Serialising an element\<close>

definition relevantAttrs :: "string list" where
  "relevantAttrs =
     [''id'', ''name'', ''class'', ''type'', ''href'', ''src'', ''placeholder'', ''value'',
      ''aria-label'', ''aria-labelledby'', ''aria-describedby'', ''aria-controls'',
      ''aria-expanded'', ''aria-haspopup'', ''aria-current'', ''title'', ''role'', ''tabindex'',
      ''list'', ''data-testid'', ''data-test-id'', ''data-test'', ''data-title'', ''data-name'',
      ''data-label'', ''data-value'', ''data-type'', ''data-role'', ''data-action'',
      ''data-command'', ''data-qa'', ''data-url'', ''data-href'']"

definition getRelevantAttributes :: "element \<Rightarrow> (string \<times> string) list" where
  "getRelevantAttributes element =
     concat (map (\<lambda>attr. case getAttribute element attr of
                           None \<Rightarrow> []
                         | Some v \<Rightarrow> if truthy v \<and> length v < 200 then [(attr, v)] else [])
                 relevantAttrs)"

definition getElementType :: "element \<Rightarrow> string" where
  "getElementType element =
     (let tag = js_toLowerCase (el_tagName element)
      in if tag = ''button'' \<or> el_type element = ''button'' \<or> el_type element = ''submit''
         then ''button''
         else if tag = ''a'' then ''link''
         else if tag = ''input''
              then ''input_'' @ (if truthy (el_type element) then el_type element else ''text'')
         else if tag = ''select'' then ''select''
         else if tag = ''textarea'' then ''textarea''
         else (case getAttribute element ''role'' of
                 Some role \<Rightarrow> if truthy role then ''role_'' @ role else tag
               | None \<Rightarrow> tag))"

fun selectorSegments :: "element list \<Rightarrow> string list \<Rightarrow> string list" where
  "selectorSegments [] path = path"
| "selectorSegments (current # rest) path =
     (if el_isBody current then path
      else if truthy (el_id current) then (''#'' @ el_id current) # path
      else
        let selector = js_toLowerCase (el_tagName current);
            selector' = (if rest \<noteq> [] \<and> el_sameTagCount current > 1
                         then selector @ '':nth-of-type('' @ showNat (el_sameTagIndex current + 1) @ '')''
                         else selector);
            path' = selector' # path
        in if length path' \<ge> 5 then path' else selectorSegments rest path')"

definition generateSelector :: "elem_ctx \<Rightarrow> string" where
  "generateSelector c =
     (let element = ctx_el c
      in if truthy (el_id element) then ''#'' @ el_id element
         else if truthy (el_name element)
              then js_toLowerCase (el_tagName element) @ ''[name=\"'' @ el_name element @ ''\"]''
         else (case getAttribute element ''data-testid'' of
                 Some t \<Rightarrow> ''[data-testid=\"'' @ t @ ''\"]''
               | None \<Rightarrow> js_join '' > '' (selectorSegments (element # ctx_ancestors c) [])))"

fun xpathSegments :: "element list \<Rightarrow> string list \<Rightarrow> string list" where
  "xpathSegments [] segments = segments"
| "xpathSegments (current # rest) segments =
     (let segment = js_toLowerCase (el_tagName current) @ ''[''
                      @ showNat (el_sameTagIndex current + 1) @ '']'';
          segments' = segment # segments
      in if length segments' \<ge> 5 then segments' else xpathSegments rest segments')"

definition generateXPath :: "elem_ctx \<Rightarrow> string" where
  "generateXPath c =
     (let element = ctx_el c
      in if truthy (el_id element) then ''//*[@id=\"'' @ el_id element @ ''\"]''
         else ''//'' @ js_join ''/'' (xpathSegments (element # ctx_ancestors c) []))"

text \<open>
  The record of an element in a snapshot. The fields that only describe the element to
  the planner (accessible name, labels, widget state, bounds, viewport flag, shadow path,
  frame) are computed from the element alone and are left out.
\<close>

record element_record =
  rec_uid :: string
  rec_tag :: string
  rec_type :: string
  rec_text :: string
  rec_attributes :: "(string \<times> string) list"
  rec_tabIndex :: int
  rec_selector :: string
  rec_xpath :: string

text \<open>
  \<open>serializeElement\<close>. The body is inside \<open>try\<close>: when \<open>generateUID\<close> or
  \<open>getElementText\<close> throws, the result is \<open>null\<close> and the element is not registered.
\<close>

definition serializeElement ::
  "int \<Rightarrow> elem_ctx \<Rightarrow> nat \<Rightarrow> registry \<Rightarrow> element_record option \<times> registry" where
  "serializeElement now c index reg =
     (let element = ctx_el c
      in case generateUID c index of
           Inl err \<Rightarrow> (None, reg)
         | Inr uid \<Rightarrow>
             (case getElementText element of
                Inl err \<Rightarrow> (None, reg)
              | Inr textContent \<Rightarrow>
                  let attributes = getRelevantAttributes element;
                      elementType = getElementType element;
                      tagName = js_toLowerCase (el_tagName element);
                      selector = generateSelector c;
                      xpath = generateXPath c;
                      reg' = registerUID now uid
                               \<lparr>loc_selector = selector, loc_xpath = xpath,
                                loc_attributes = Some attributes, loc_text = textContent,
                                loc_tag = tagName\<rparr> reg
                  in (Some \<lparr>rec_uid = uid, rec_tag = tagName, rec_type = elementType,
                            rec_text = textContent, rec_attributes = attributes,
                            rec_tabIndex = el_tabIndex element, rec_selector = selector,
                            rec_xpath = xpath\<rparr>, reg')))"

record snapshot =
  snap_elementCount :: nat
  snap_elements :: "element_record list"

text \<open>
  \<open>interactiveElements.map((element, index) => serializeElement(element, index))\<close>:
  the index counts the elements that passed the filter. \<open>captureDOM\<close> then drops the
  \<open>null\<close> results, \<open>.filter((el) => el !== null)\<close>.
\<close>

fun serializeAll ::
  "int \<Rightarrow> elem_ctx list \<Rightarrow> nat \<Rightarrow> registry \<Rightarrow> element_record option list \<times> registry" where
  "serializeAll now [] index reg = ([], reg)"
| "serializeAll now (c # cs) index reg =
     (let (r, reg') = serializeElement now c index reg;
          (rs, reg'') = serializeAll now cs (index + 1) reg'
      in (r # rs, reg''))"

definition captureDOM :: "int \<Rightarrow> elem_ctx list \<Rightarrow> registry \<Rightarrow> snapshot \<times> registry" where
  "captureDOM now candidates reg =
     (let interactiveElements = getInteractiveElements candidates;
          (mapped, reg') = serializeAll now interactiveElements 0 reg;
          serializedElements = map the (filter (\<lambda>el. el \<noteq> None) mapped)
      in (\<lparr>snap_elementCount = length serializedElements,
           snap_elements = serializedElements\<rparr>, reg'))"

subsection \<open>What a capture registers\<close>

text \<open>
  The locators \<open>serializeElement\<close> passes to \<open>registerUID\<close> are fields of the record it
  returns, and \<open>registerUID\<close> stores them with the time of the capture and an access
  count of zero.
\<close>

definition recordLocators :: "element_record \<Rightarrow> locators" where
  "recordLocators r =
     \<lparr>loc_selector = rec_selector r, loc_xpath = rec_xpath r,
      loc_attributes = Some (rec_attributes r), loc_text = rec_text r, loc_tag = rec_tag r\<rparr>"

definition freshEntry :: "int \<Rightarrow> element_record \<Rightarrow> registry_entry" where
  "freshEntry now r =
     locators.extend (recordLocators r) \<lparr>re_timestamp = now, re_accessCount = 0\<rparr>"

definition snapshotUids :: "int \<Rightarrow> elem_ctx list \<Rightarrow> string list" where
  "snapshotUids now candidates =
     map rec_uid (snap_elements (fst (captureDOM now candidates Map.empty)))"

subsection \<open>Sequences of registry operations\<close>

datatype registry_op =
    Lookup document string
  | Sweep int
  | Register int string locators
  | Recapture int "elem_ctx list"

fun applyOp :: "registry_op \<Rightarrow> registry \<Rightarrow> registry" where
  "applyOp (Lookup doc uid) reg = fst (getElementByUID doc reg uid)"
| "applyOp (Sweep now) reg = cleanupRegistry now reg"
| "applyOp (Register now uid selectors) reg = registerUID now uid selectors reg"
| "applyOp (Recapture now candidates) reg = snd (captureDOM now candidates reg)"

fun applyOps :: "registry_op list \<Rightarrow> registry \<Rightarrow> registry" where
  "applyOps [] reg = reg"
| "applyOps (op # ops) reg = applyOps ops (applyOp op reg)"

definition registersUid :: "string \<Rightarrow> registry_op \<Rightarrow> bool" where
  "registersUid uid op =
     (case op of
        Register now u selectors \<Rightarrow> u = uid
      | Recapture now candidates \<Rightarrow> uid \<in> set (snapshotUids now candidates)
      | _ \<Rightarrow> False)"

text \<open>The Save button in its page.\<close>

definition save_ctx :: elem_ctx where
  "save_ctx = \<lparr>ctx_node = DomNode save_button [], ctx_ancestors = [body_element]\<rparr>"

section \<open>Typing into an element\<close>

text \<open>
  The target of a \<open>type\<close> action as \<open>content/content-script.js\<close> uses it. The element
  records the writes to its value and the events dispatched on it, in order. A framework
  that intercepts the \<open>value\<close> property of the instance observes a write made through
  the instance and misses none made through the setter of the prototype; the element
  says which way a write took, whether its prototype offers a setter, and whether a write
  throws.
\<close>

datatype value_write = ViaPrototypeSetter string | ViaInstance string

datatype proto_setter = SetterWorks | SetterThrows | NoSetter

record input_el =
  in_tagName :: string
  in_value :: string
  in_isContentEditable :: bool
  in_innerText :: string
  in_protoSetter :: proto_setter
  in_assignThrows :: bool
  in_writes :: "value_write list"
  in_events :: "string list"

definition dispatchEvent :: "string \<Rightarrow> input_el \<Rightarrow> input_el" where
  "dispatchEvent type el = el\<lparr>in_events := in_events el @ [type]\<rparr>"

text \<open>\<open>desc.set.call(el, value)\<close> and \<open>el.value = value\<close>; \<open>None\<close> when the write throws.\<close>

definition callProtoSetter :: "input_el \<Rightarrow> string \<Rightarrow> input_el option" where
  "callProtoSetter el v =
     (if in_protoSetter el = SetterWorks
      then Some (el\<lparr>in_value := v, in_writes := in_writes el @ [ViaPrototypeSetter v]\<rparr>)
      else None)"

definition assignValue :: "input_el \<Rightarrow> string \<Rightarrow> input_el option" where
  "assignValue el v =
     (if in_assignThrows el then None
      else Some (el\<lparr>in_value := v, in_writes := in_writes el @ [ViaInstance v]\<rparr>))"

definition notifyInputChange :: "input_el \<Rightarrow> input_el" where
  "notifyInputChange el = dispatchEvent ''change'' (dispatchEvent ''input'' el)"

text \<open>
  \<open>setValueReactSafe\<close>: the prototype is chosen by the tag; without a prototype, or
  without a setter on it, the value is assigned directly; if the write throws, the
  handler assigns directly, and reports failure if that throws too.
\<close>

definition setValueReactSafe :: "input_el option \<Rightarrow> string \<Rightarrow> bool \<times> input_el option" where
  "setValueReactSafe elOpt v =
     (case elOpt of
        None \<Rightarrow> (False, None)
      | Some el \<Rightarrow>
          let tag = js_toLowerCase (in_tagName el);
              hasProto = (tag = ''input'' \<or> tag = ''textarea'' \<or> tag = ''select'');
              written = (if hasProto \<and> in_protoSetter el \<noteq> NoSetter
                         then callProtoSetter el v else assignValue el v)
          in case written of
               Some el' \<Rightarrow> (True, Some (notifyInputChange el'))
             | None \<Rightarrow>
                 (case assignValue el v of
                    Some el' \<Rightarrow> (True, Some (notifyInputChange el'))
                  | None \<Rightarrow> (False, Some el)))"

text \<open>
  \<open>setElementValue\<close>, used by the first revision of the content script: it reads the
  descriptor from the prototype of the element itself and has no handler, so a throwing
  write is an exception (\<open>Inl\<close>).
\<close>

definition setElementValue :: "input_el \<Rightarrow> string \<Rightarrow> string + input_el" where
  "setElementValue element v =
     (if in_isContentEditable element
      then Inr (notifyInputChange (element\<lparr>in_innerText := v\<rparr>))
      else
        (case (if in_protoSetter element \<noteq> NoSetter then callProtoSetter element v
               else assignValue element v) of
           Some el' \<Rightarrow> Inr (notifyInputChange el')
         | None \<Rightarrow> Inl ''TypeError''))"

text \<open>
  \<open>typeIntoElement\<close>: native inputs, text areas and selects take the first branch. The
  later strategies (content-editable targets, embedded editors, the active element)
  depend on the editing behaviour of the browser and are the parameter \<open>later\<close>.
\<close>

record type_outcome =
  to_ok :: bool
  to_mode :: string

definition typeIntoElement ::
  "(input_el \<Rightarrow> string \<Rightarrow> type_outcome \<times> input_el option) \<Rightarrow> input_el \<Rightarrow> string
     \<Rightarrow> type_outcome \<times> input_el option" where
  "typeIntoElement later element text =
     (let tag = js_toLowerCase (in_tagName element)
      in if tag = ''input'' \<or> tag = ''textarea'' \<or> tag = ''select''
         then (let (ok, el') = setValueReactSafe (Some element) text
               in (\<lparr>to_ok = ok, to_mode = tag\<rparr>, el'))
         else later element text)"

text \<open>A plain text input: the tag is \<open>input\<close> and the prototype setter works.\<close>

definition plainTextInput :: "input_el \<Rightarrow> bool" where
  "plainTextInput el =
     (js_toLowerCase (in_tagName el) = ''input'' \<and> \<not> in_isContentEditable el
      \<and> in_protoSetter el = SetterWorks)"

definition search_box :: input_el where
  "search_box =
     \<lparr>in_tagName = ''INPUT'', in_value = ''old'', in_isContentEditable = False,
      in_innerText = [], in_protoSetter = SetterWorks, in_assignThrows = False,
      in_writes = [], in_events = [''focus'']\<rparr>"


section \<open>Resolution with retry\<close>

text \<open>
  \<open>resolveElementWithRetry\<close> of \<open>content/content-script.js\<close> runs in the page while the
  page renders on: the page is given at each tick, and a tick passes with each sleep. The
  state carries the registry, the tick and the trace of what the function did.
\<close>

record page =
  pg_document :: document
  pg_candidates :: "elem_ctx list"
  pg_now :: int

datatype retry_event = EvLookup | EvCapture | EvSleep int

record content_state =
  cs_registry :: registry
  cs_tick :: nat
  cs_trace :: "retry_event list"







text \<open>The events a call added to the trace, and the pauses among them.\<close>

definition addedEvents :: "content_state \<Rightarrow> content_state \<Rightarrow> retry_event list" where
  "addedEvents st st' = drop (length (cs_trace st)) (cs_trace st')"

fun pausesOf :: "retry_event list \<Rightarrow> int list" where
  "pausesOf [] = []"
| "pausesOf (EvSleep ms # es) = ms # pausesOf es"
| "pausesOf (e # es) = pausesOf es"









section \<open>The orchestration loop\<close>

text \<open>
  \<open>startAutomationLoop\<close> of the side panel script. The planner, the page and the user
  are the environment: \<open>requestNextAction\<close>, \<open>executeActionOnPage\<close> and
  \<open>captureDOMFromPage\<close> are calls that return or throw, and \<open>state.stopRequested\<close> is a
  flag the user may set while a call is awaited. The loop awaits one call at a time; a
  tick passes with each awaited call, and the environment answers by the tick. The trace
  records the calls. Messages for the history panel and the status line are left out.
\<close>

record action =
  act_type :: string
  act_target_uid :: string
  act_value :: string
  act_reasoning :: string

record action_plan =
  plan_complete :: bool
  plan_reason :: string
  plan_next_action :: "action option"

record execution_result =
  ex_success :: "bool option"
  ex_error :: string
  ex_message :: string
  ex_navigated :: bool
  ex_url :: string
  ex_target_url :: string
  ex_targetUrl :: string
  ex_errors :: "string list"
  ex_successes :: "string list"
  ex_new_dom :: "snapshot option"
  ex_navigationPending :: bool

record backend_result =
  br_success :: bool
  br_action :: string
  br_target_uid :: string
  br_value :: string
  br_reasoning :: string
  br_error :: string
  br_message :: string
  br_navigated :: bool
  br_url :: string
  br_errors :: "string list"
  br_successes :: "string list"
  br_navigation_pending :: bool

record capture_result =
  cap_success :: bool
  cap_data :: "snapshot option"
  cap_error :: string

datatype capture_response = CaptureThrows string | CaptureReturns "capture_result option"

datatype plan_response = PlanThrows string | PlanReturns "action_plan option"

datatype exec_response = ExecThrows string | ExecReturns "execution_result option"

record environment =
  env_stopRequested :: "nat \<Rightarrow> bool"
  env_capture :: "nat \<Rightarrow> capture_response"
  env_plan :: "nat \<Rightarrow> snapshot \<Rightarrow> backend_result option \<Rightarrow> plan_response"
  env_exec :: "nat \<Rightarrow> action \<Rightarrow> exec_response"

datatype loop_event = Delay nat | Capture | Plan | Execute action

record loop_state =
  ls_currentDom :: "snapshot option"
  ls_previousResult :: "backend_result option"
  ls_iteration :: nat
  ls_tick :: nat
  ls_trace :: "loop_event list"

datatype outcome = Outcome (oc_status: string) (oc_message: string)

datatype step_result = Next loop_state | Done outcome loop_state

definition maxIterations :: nat where
  "maxIterations = 20"

definition maxCaptureAttempts :: nat where
  "maxCaptureAttempts = 3"

definition orText :: "string \<Rightarrow> string \<Rightarrow> string" where
  "orText a b = (if truthy a then a else b)"

definition delay :: "nat \<Rightarrow> loop_state \<Rightarrow> loop_state" where
  "delay ms st = st\<lparr>ls_tick := ls_tick st + 1, ls_trace := ls_trace st @ [Delay ms]\<rparr>"

definition captureDOMFromPage :: "environment \<Rightarrow> loop_state \<Rightarrow> capture_response \<times> loop_state" where
  "captureDOMFromPage env st =
     (env_capture env (ls_tick st),
      st\<lparr>ls_tick := ls_tick st + 1, ls_trace := ls_trace st @ [Capture]\<rparr>)"

definition requestNextAction ::
  "environment \<Rightarrow> snapshot \<Rightarrow> backend_result option \<Rightarrow> loop_state \<Rightarrow> plan_response \<times> loop_state" where
  "requestNextAction env domData previousResult st =
     (env_plan env (ls_tick st) domData previousResult,
      st\<lparr>ls_tick := ls_tick st + 1, ls_trace := ls_trace st @ [Plan]\<rparr>)"

definition executeActionOnPage ::
  "environment \<Rightarrow> action \<Rightarrow> loop_state \<Rightarrow> exec_response \<times> loop_state" where
  "executeActionOnPage env a st =
     (env_exec env (ls_tick st) a,
      st\<lparr>ls_tick := ls_tick st + 1, ls_trace := ls_trace st @ [Execute a]\<rparr>)"

definition buildActionResultForBackend :: "action \<Rightarrow> execution_result \<Rightarrow> backend_result" where
  "buildActionResultForBackend a r =
     \<lparr>br_success = (ex_success r = Some True), br_action = act_type a,
      br_target_uid = act_target_uid a, br_value = act_value a,
      br_reasoning = act_reasoning a, br_error = ex_error r, br_message = ex_message r,
      br_navigated = ex_navigated r,
      br_url = orText (ex_url r) (orText (ex_target_url r) (ex_targetUrl r)),
      br_errors = ex_errors r, br_successes = ex_successes r,
      br_navigation_pending = ex_navigationPending r\<rparr>"

text \<open>\<open>domCapture?.success && domCapture.data\<close>: the snapshot of a usable capture.\<close>

definition usableCapture :: "capture_response \<Rightarrow> snapshot option" where
  "usableCapture resp =
     (case resp of
        CaptureReturns (Some r) \<Rightarrow> if cap_success r then cap_data r else None
      | _ \<Rightarrow> None)"

text \<open>After a navigation a capture counts only if it holds at least one element.\<close>

definition acceptedCapture :: "capture_response \<Rightarrow> snapshot option" where
  "acceptedCapture resp =
     (case usableCapture resp of
        Some d \<Rightarrow> if length (snap_elements d) > 0 then Some d else None
      | None \<Rightarrow> None)"

text \<open>The capture at the top of an iteration that starts without a snapshot.\<close>

definition ensureDom ::
  "environment \<Rightarrow> loop_state \<Rightarrow> outcome \<times> loop_state + snapshot \<times> loop_state" where
  "ensureDom env st =
     (case ls_currentDom st of
        Some domData \<Rightarrow> Inr (domData, st)
      | None \<Rightarrow>
          let (resp, st') = captureDOMFromPage env (delay 1000 st)
          in (case usableCapture resp of
                Some d \<Rightarrow> Inr (d, st'\<lparr>ls_currentDom := Some d\<rparr>)
              | None \<Rightarrow>
                  let reason = (case resp of
                                  CaptureThrows m \<Rightarrow> m
                                | CaptureReturns (Some r) \<Rightarrow>
                                    orText (cap_error r) ''Empty DOM snapshot returned''
                                | CaptureReturns None \<Rightarrow> ''Empty DOM snapshot returned'')
                  in Inl (Outcome ''error'' (''Unable to capture DOM: '' @ reason), st')))"

definition planPhase ::
  "environment \<Rightarrow> snapshot \<Rightarrow> loop_state \<Rightarrow> outcome \<times> loop_state + action \<times> loop_state" where
  "planPhase env domData st =
     (let (resp, st') = requestNextAction env domData (ls_previousResult st) st
      in case resp of
           PlanThrows m \<Rightarrow> Inl (Outcome ''error'' m, st')
         | PlanReturns None \<Rightarrow>
             Inl (Outcome ''error'' ''Backend returned an empty action plan'', st')
         | PlanReturns (Some actionPlan) \<Rightarrow>
             if plan_complete actionPlan
             then Inl (Outcome ''success'' (orText (plan_reason actionPlan) ''Goal achieved''), st')
             else (case plan_next_action actionPlan of
                     None \<Rightarrow>
                       Inl (Outcome ''error'' ''Backend did not provide a next action'', st')
                   | Some a \<Rightarrow> Inr (a, st')))"

definition executePhase ::
  "environment \<Rightarrow> action \<Rightarrow> loop_state \<Rightarrow> outcome \<times> loop_state + execution_result \<times> loop_state" where
  "executePhase env a st =
     (let (resp, st') = executeActionOnPage env a st
      in case resp of
           ExecThrows m \<Rightarrow> Inl (Outcome ''error'' m, st')
         | ExecReturns None \<Rightarrow>
             Inl (Outcome ''error'' ''Content script returned an unexpected response'', st')
         | ExecReturns (Some r) \<Rightarrow>
             if ex_success r = None
             then Inl (Outcome ''error'' ''Content script returned an unexpected response'', st')
             else Inr (r, st'\<lparr>ls_previousResult := Some (buildActionResultForBackend a r)\<rparr>))"

definition transientPatterns :: "string list" where
  "transientPatterns =
     [''element not found'', ''failed to fetch'', ''network'', ''timeout'', ''detached'',
      ''stale'', ''not clickable'', ''intercepted'']"

definition isTransient :: "execution_result \<Rightarrow> bool" where
  "isTransient r =
     (let errMsg = js_toLowerCase (orText (ex_error r) (ex_message r))
      in list_ex (\<lambda>p. js_includes errMsg p) transientPatterns)"

text \<open>
  A failed action: a transient failure restarts planning on a fresh snapshot without
  counting the iteration (\<open>continue\<close>); any other failure ends the loop.
\<close>

definition failureOutcome :: "execution_result \<Rightarrow> outcome" where
  "failureOutcome r =
     Outcome ''error'' (orText (ex_error r) (orText (ex_message r) ''Action execution failed''))"

definition recoverFromFailure :: "environment \<Rightarrow> execution_result \<Rightarrow> loop_state \<Rightarrow> step_result" where
  "recoverFromFailure env r st =
     (if isTransient r
      then (case ex_new_dom r of
              Some d \<Rightarrow> Next (delay 150 (st\<lparr>ls_currentDom := Some d\<rparr>))
            | None \<Rightarrow>
                let (resp, st') = captureDOMFromPage env (delay 1000 st)
                in (case usableCapture resp of
                      Some d \<Rightarrow> Next (delay 150 (st'\<lparr>ls_currentDom := Some d\<rparr>))
                    | None \<Rightarrow> Done (failureOutcome r) st'))
      else Done (failureOutcome r) st)"

text \<open>
  The capture attempts after a navigation: before the second and the third attempt the
  loop waits \<open>800 * (captureAttempt - 1)\<close> ms; the first capture with at least one
  element becomes the current snapshot and ends the attempts.
\<close>

function postNavCapture :: "environment \<Rightarrow> nat \<Rightarrow> loop_state \<Rightarrow> bool \<times> loop_state" where
  "postNavCapture env captureAttempt st =
     (if captureAttempt < maxCaptureAttempts
      then
        let attempt' = captureAttempt + 1;
            st1 = (if attempt' > 1 then delay (800 * (attempt' - 1)) st else st);
            (resp, st2) = captureDOMFromPage env st1
        in (case acceptedCapture resp of
              Some d \<Rightarrow> (True, st2\<lparr>ls_currentDom := Some d\<rparr>)
            | None \<Rightarrow> postNavCapture env attempt' st2)
      else (False, st))"
  by pat_completeness auto
termination
  by (relation "measure (\<lambda>(env, captureAttempt, st). maxCaptureAttempts - captureAttempt)")
     (auto simp add: maxCaptureAttempts_def)

definition navigationRecovery :: "environment \<Rightarrow> loop_state \<Rightarrow> loop_state" where
  "navigationRecovery env st =
     (let (freshDomResult, st') = postNavCapture env 0 (delay 2500 st)
      in if freshDomResult then st' else st'\<lparr>ls_currentDom := None\<rparr>)"

text \<open>The end of an iteration whose action succeeded.\<close>

definition finishIteration :: "environment \<Rightarrow> loop_state \<Rightarrow> loop_state" where
  "finishIteration env st =
     (let st' = st\<lparr>ls_iteration := ls_iteration st + 1\<rparr>
      in if \<not> env_stopRequested env (ls_tick st') then delay 250 st' else st')"

definition afterSuccess :: "environment \<Rightarrow> execution_result \<Rightarrow> loop_state \<Rightarrow> loop_state" where
  "afterSuccess env r st =
     finishIteration env
       (if ex_navigated r then navigationRecovery env st
        else st\<lparr>ls_currentDom := ex_new_dom r\<rparr>)"

definition stoppedOutcome :: outcome where
  "stoppedOutcome = Outcome ''stopped'' ''Execution stopped by user''"

definition loopBody :: "environment \<Rightarrow> loop_state \<Rightarrow> step_result" where
  "loopBody env st =
     (if env_stopRequested env (ls_tick st) then Done stoppedOutcome st
      else
        (case ensureDom env st of
           Inl (oc, st1) \<Rightarrow> Done oc st1
         | Inr (domData, st1) \<Rightarrow>
             (case planPhase env domData st1 of
                Inl (oc, st2) \<Rightarrow> Done oc st2
              | Inr (a, st2) \<Rightarrow>
                  (case executePhase env a st2 of
                     Inl (oc, st3) \<Rightarrow> Done oc st3
                   | Inr (r, st3) \<Rightarrow>
                       if ex_success r \<noteq> Some True then recoverFromFailure env r st3
                       else Next (afterSuccess env r st3)))))"

definition limitOutcome :: outcome where
  "limitOutcome = Outcome ''error'' ''Reached iteration limit without completing the task''"

text \<open>
  The \<open>while\<close> loop. A transient failure does not advance \<open>iteration\<close>, so the loop
  need not end; a run that does not end has no result.
\<close>

partial_function (option) automationLoop ::
  "environment \<Rightarrow> loop_state \<Rightarrow> (outcome \<times> loop_state) option" where
  "automationLoop env st =
     (if ls_iteration st < maxIterations
      then (case loopBody env st of
              Done oc st' \<Rightarrow> Some (oc, st')
            | Next st' \<Rightarrow> automationLoop env st')
      else Some (limitOutcome, st))"

text \<open>The number of actions a run has sent to the page, and of requests to the planner.\<close>

fun isExecute :: "loop_event \<Rightarrow> bool" where
  "isExecute (Execute a) = True"
| "isExecute e = False"

definition executions :: "loop_state \<Rightarrow> nat" where
  "executions st = length (filter isExecute (ls_trace st))"

definition planRequests :: "loop_state \<Rightarrow> nat" where
  "planRequests st = count_list (ls_trace st) Plan"

definition initialState :: "snapshot option \<Rightarrow> loop_state" where
  "initialState initialDomData =
     \<lparr>ls_currentDom = initialDomData, ls_previousResult = None, ls_iteration = 0,
      ls_tick = 0, ls_trace = []\<rparr>"

definition startAutomationLoop ::
  "environment \<Rightarrow> snapshot option \<Rightarrow> (outcome \<times> loop_state) option" where
  "startAutomationLoop env initialDomData = automationLoop env (initialState initialDomData)"


section \<open>Executing an action in the page\<close>




subsection \<open>Sample runs\<close>

definition click_action :: action where
  "click_action = \<lparr>act_type = ''click'', act_target_uid = ''elem_id_save'', act_value = [],
                   act_reasoning = []\<rparr>"

definition keep_going :: action_plan where
  "keep_going = \<lparr>plan_complete = False, plan_reason = [], plan_next_action = Some click_action\<rparr>"

definition one_element_snapshot :: snapshot where
  "one_element_snapshot =
     \<lparr>snap_elementCount = 1,
      snap_elements = [\<lparr>rec_uid = ''elem_id_save'', rec_tag = ''button'', rec_type = ''button'',
                        rec_text = ''Save'', rec_attributes = [], rec_tabIndex = 0,
                        rec_selector = ''#save'', rec_xpath = ''//*[@id=\"save\"]''\<rparr>]\<rparr>"


definition good_capture :: capture_response where
  "good_capture = CaptureReturns (Some \<lparr>cap_success = True, cap_data = Some one_element_snapshot,
                                        cap_error = []\<rparr>)"


definition clicked :: execution_result where
  "clicked =
     \<lparr>ex_success = Some True, ex_error = [], ex_message = ''Clicked element'',
      ex_navigated = False, ex_url = ''https://example.org/'', ex_target_url = [],
      ex_targetUrl = [], ex_errors = [], ex_successes = [],
      ex_new_dom = Some one_element_snapshot, ex_navigationPending = False\<rparr>"



text \<open>
  An environment whose planner never reports completion and whose actions all succeed;
  one whose page navigates and shows its elements at the second capture; and one whose
  first action fails for good.
\<close>

definition steady_env :: environment where
  "steady_env =
     \<lparr>env_stopRequested = (\<lambda>t. False), env_capture = (\<lambda>t. good_capture),
      env_plan = (\<lambda>t d p. PlanReturns (Some keep_going)),
      env_exec = (\<lambda>t a. ExecReturns (Some clicked))\<rparr>"



text \<open>
  An environment in which every action fails because the element is not found, an error
  the loop takes for transient, and the page sends a fresh snapshot along.
\<close>

definition element_missing :: execution_result where
  "element_missing =
     clicked\<lparr>ex_success := Some False, ex_error := ''Element not found'', ex_message := []\<rparr>"

definition flaky_env :: environment where
  "flaky_env = steady_env\<lparr>env_exec := (\<lambda>t a. ExecReturns (Some element_missing))\<rparr>"

text \<open>The user presses stop while the first action is being executed.\<close>

definition stopping_env :: environment where
  "stopping_env = steady_env\<lparr>env_stopRequested := (\<lambda>t. t \<ge> 2)\<rparr>"




definition stopped_state :: loop_state where
  "stopped_state =
     \<lparr>ls_currentDom = Some one_element_snapshot,
      ls_previousResult = Some (buildActionResultForBackend click_action clicked),
      ls_iteration = 1, ls_tick = 2, ls_trace = [Plan, Execute click_action]\<rparr>"

text \<open>
  The user presses stop while the planner is being asked, and the planner answers that
  the goal is reached.
\<close>

definition done_plan :: action_plan where
  "done_plan = \<lparr>plan_complete = True, plan_reason = ''Saved'', plan_next_action = None\<rparr>"

definition completing_env :: environment where
  "completing_env =
     steady_env\<lparr>env_stopRequested := (\<lambda>t. t \<ge> 1),
                env_plan := (\<lambda>t d p. PlanReturns (Some done_plan))\<rparr>"

definition completed_state :: loop_state where
  "completed_state =
     \<lparr>ls_currentDom = Some one_element_snapshot, ls_previousResult = None,
      ls_iteration = 0, ls_tick = 1, ls_trace = [Plan]\<rparr>"


section \<open>Properties of the select action\<close>

lemma find_either_as_tiers:
  "((\<exists>x\<in>set xs. P x) \<longrightarrow> (\<forall>x\<in>set (takeWhile (\<lambda>x. \<not> P x) xs). \<not> Q x)) \<Longrightarrow>
   find (\<lambda>x. P x \<or> Q x) xs = (case find P xs of Some x \<Rightarrow> Some x | None \<Rightarrow> find Q xs)"
proof (induction xs)
  case Nil
  show ?case by simp
next
  case (Cons x xs)
  show ?case
  proof (cases "P x")
    case True
    then show ?thesis by simp
  next
    case notP: False
    show ?thesis
    proof (cases "Q x")
      case True
      with notP Cons.prems have "\<forall>y\<in>set xs. \<not> P y" by auto
      then have "find P xs = None" by (simp add: find_None_iff)
      with True notP show ?thesis by simp
    next
      case False
      with notP Cons show ?thesis by (auto split: option.splits)
    qed
  qed
qed

text \<open>
  C6, as stated: value matches take precedence over text matches. An option whose text is
  the request, placed before the option whose value is the request, is what the code
  returns, whereas the three tiers return the value match.
\<close>

theorem selectOption_three_tiers_counterexample:
  "fst (selectOption (Some swapped_select) (Some ''NY'')) = Some \<lparr>opt_value = ''x'', opt_text = ''NY''\<rparr>
   \<and> selectOption_three_tiers (sel_options swapped_select) (requestText (Some ''NY''))
       = Some \<lparr>opt_value = ''NY'', opt_text = ''New York''\<rparr>"
  by code_simp

text \<open>
  C6, amended: on a native select element the request is trimmed and the options are
  scanned in two passes. The first pass returns the earliest option, in document order,
  whose value equals the request or whose trimmed text equals it; the second pass, made
  only for a non-empty request, returns the earliest option whose lower-cased text
  contains the lower-cased request. The result is that of the three tiers whenever the
  request is non-empty and no option placed before the first value match has the
  request as its trimmed text; in particular \<open>NY\<close> selects the option with text
  \<open>NY\<close> among \<open>ny/New York\<close> and \<open>ny2/NY\<close>.
\<close>

theorem selectOption_two_passes:
  assumes "js_toLowerCase (sel_tagName sel) = ''select''"
  shows "fst (selectOption (Some sel) req)
           = (case find (exactMatch (requestText req)) (sel_options sel) of
                Some opt \<Rightarrow> Some opt
              | None \<Rightarrow> if requestText req = [] then None
                        else find (containsMatch (requestText req)) (sel_options sel))
         \<and> (requestText req \<noteq> [] \<and>
            ((\<exists>opt\<in>set (sel_options sel). opt_value opt = requestText req) \<longrightarrow>
             (\<forall>opt\<in>set (takeWhile (\<lambda>opt. opt_value opt \<noteq> requestText req) (sel_options sel)).
                js_trim (opt_text opt) \<noteq> requestText req))
            \<longrightarrow> fst (selectOption (Some sel) req)
                  = selectOption_three_tiers (sel_options sel) (requestText req))"
proof -
  define v where "v = requestText req"
  have res: "fst (selectOption (Some sel) req)
               = (case find (exactMatch v) (sel_options sel) of
                    Some opt \<Rightarrow> Some opt
                  | None \<Rightarrow> if v = [] then None else find (containsMatch v) (sel_options sel))"
    using assms
    by (simp add: selectOption_def Let_def truthy_def v_def split: option.splits)
  have agree: "fst (selectOption (Some sel) req) = selectOption_three_tiers (sel_options sel) v"
    if nonempty: "v \<noteq> []"
      and order: "(\<exists>opt\<in>set (sel_options sel). opt_value opt = v) \<longrightarrow>
                  (\<forall>opt\<in>set (takeWhile (\<lambda>opt. opt_value opt \<noteq> v) (sel_options sel)).
                     js_trim (opt_text opt) \<noteq> v)"
  proof -
    have "find (\<lambda>opt. opt_value opt = v \<or> js_trim (opt_text opt) = v) (sel_options sel)
            = (case find (\<lambda>opt. opt_value opt = v) (sel_options sel) of
                 Some opt \<Rightarrow> Some opt
               | None \<Rightarrow> find (\<lambda>opt. js_trim (opt_text opt) = v) (sel_options sel))"
      using order by (intro find_either_as_tiers) simp
    moreover have "exactMatch v = (\<lambda>opt. opt_value opt = v \<or> js_trim (opt_text opt) = v)"
      by (rule ext) (simp add: exactMatch_def)
    ultimately show ?thesis
      using nonempty
      by (simp add: res selectOption_three_tiers_def split: option.splits)
  qed
  from res agree show ?thesis
    unfolding v_def by blast
qed

theorem selectOption_two_passes_witness:
  "js_toLowerCase (sel_tagName ny_select) = ''select''
   \<and> fst (selectOption (Some ny_select) (Some ''NY'')) = Some \<lparr>opt_value = ''ny2'', opt_text = ''NY''\<rparr>
   \<and> selectOption_three_tiers (sel_options ny_select) (requestText (Some ''NY''))
       = Some \<lparr>opt_value = ''ny2'', opt_text = ''NY''\<rparr>"
proof -
  have tag: "js_toLowerCase (sel_tagName ny_select) = ''select''"
    by code_simp
  have rhs: "(case find (exactMatch (requestText (Some ''NY''))) (sel_options ny_select) of
                Some opt \<Rightarrow> Some opt
              | None \<Rightarrow> if requestText (Some ''NY'') = [] then None
                        else find (containsMatch (requestText (Some ''NY''))) (sel_options ny_select))
             = Some \<lparr>opt_value = ''ny2'', opt_text = ''NY''\<rparr>"
    by code_simp
  have tiers: "selectOption_three_tiers (sel_options ny_select) (requestText (Some ''NY''))
                 = Some \<lparr>opt_value = ''ny2'', opt_text = ''NY''\<rparr>"
    by code_simp
  from selectOption_two_passes [OF tag, of "Some ''NY''"]
  have "fst (selectOption (Some ny_select) (Some ''NY''))
          = (case find (exactMatch (requestText (Some ''NY''))) (sel_options ny_select) of
                Some opt \<Rightarrow> Some opt
              | None \<Rightarrow> if requestText (Some ''NY'') = [] then None
                        else find (containsMatch (requestText (Some ''NY''))) (sel_options ny_select))"
    by (rule conjunct1)
  then have "fst (selectOption (Some ny_select) (Some ''NY''))
               = Some \<lparr>opt_value = ''ny2'', opt_text = ''NY''\<rparr>"
    using rhs by (rule trans)
  with tag tiers show ?thesis by (intro conjI)
qed


section \<open>Properties of the snapshot extractor\<close>

lemma serializeElement_fst:
  "fst (serializeElement now c i reg) = fst (serializeElement now c i reg0)"
  by (simp add: serializeElement_def Let_def split: sum.splits)

lemma serializeElement_record:
  assumes "generateUID c i = Inr uid" and "getElementText (ctx_el c) = Inr t"
  shows "fst (serializeElement now c i reg) =
     Some \<lparr>rec_uid = uid, rec_tag = js_toLowerCase (el_tagName (ctx_el c)),
           rec_type = getElementType (ctx_el c), rec_text = t,
           rec_attributes = getRelevantAttributes (ctx_el c), rec_tabIndex = el_tabIndex (ctx_el c),
           rec_selector = generateSelector c, rec_xpath = generateXPath c\<rparr>"
  using assms by (simp add: serializeElement_def Let_def)

lemma getElementText_throws:
  "(\<exists>err. getElementText e = Inl err) = (\<exists>n. el_value e = JsNumber n \<and> n \<noteq> 0)"
  by (cases "el_value e") (auto simp add: getElementText_def valueTruthy_def Let_def)

lemma serializeElement_null:
  "(fst (serializeElement now c i reg) = None) = (\<exists>err. getElementText (ctx_el c) = Inl err)"
  by (auto simp add: serializeElement_def generateUID_def Let_def split: sum.splits)

lemma serializeElement_uid:
  "fst (serializeElement now c i reg) = Some r \<Longrightarrow> generateUID c i = Inr (rec_uid r)"
  by (auto simp add: serializeElement_def Let_def split: sum.splits)

lemma serializeAll_records:
  "fst (serializeAll now cs k reg)
     = map (\<lambda>(i, c). fst (serializeElement now c i reg0)) (enumerate k cs)"
proof (induction cs arbitrary: k reg)
  case Nil
  show ?case by simp
next
  case (Cons c cs)
  show ?case
    using Cons.IH [of "Suc k" "snd (serializeElement now c k reg)"]
      serializeElement_fst [of now c k reg reg0]
    by (simp add: split_beta)
qed

lemma captureDOM_records:
  "snap_elements (fst (captureDOM now candidates reg))
     = map the (filter (\<lambda>el. el \<noteq> None)
         (map (\<lambda>(i, c). fst (serializeElement now c i reg0))
            (enumerate 0 (getInteractiveElements candidates))))"
  by (simp add: captureDOM_def Let_def split_beta serializeAll_records [where ?reg0.0 = reg0])

lemma radio_red_actionable: "isActionableElement radio_red"
  by code_simp

lemma radio_blue_actionable: "isActionableElement radio_blue"
  by code_simp

lemma radio_red_uid: "generateUID radio_red 0 = Inr ''elem_name_color''"
  by code_simp

lemma radio_blue_uid: "generateUID radio_blue (Suc 0) = Inr ''elem_name_color''"
  by code_simp

lemma radio_red_text: "getElementText (ctx_el radio_red) = Inr ''red''"
  by code_simp

lemma radio_blue_text: "getElementText (ctx_el radio_blue) = Inr ''blue''"
  by code_simp

lemma radio_nodes_differ: "el_node (ctx_el radio_red) \<noteq> el_node (ctx_el radio_blue)"
  by code_simp

text \<open>
  C1: the uids of one snapshot are pairwise distinct. Two radio buttons of one group share
  their \<open>name\<close>; \<open>generateUID\<close> returns \<open>elem_name_\<close> followed by the name for
  both, without the traversal index that the fingerprint branch appends, so the snapshot
  of the two distinct nodes carries the same uid twice.
\<close>

theorem captureDOM_radio_group_uids:
  "el_node (ctx_el radio_red) \<noteq> el_node (ctx_el radio_blue)
   \<and> map rec_uid (snap_elements (fst (captureDOM 0 [radio_red, radio_blue] Map.empty)))
       = [''elem_name_color'', ''elem_name_color'']"
  by (simp add: captureDOM_records [where ?reg0.0 = Map.empty] getInteractiveElements_def
        radio_red_actionable radio_blue_actionable radio_nodes_differ
        serializeElement_record [OF radio_red_uid radio_red_text]
        serializeElement_record [OF radio_blue_uid radio_blue_text])

lemma display_none_not_actionable:
  "st_display (el_style (ctx_el c)) = ''none'' \<Longrightarrow> \<not> isActionableElement c"
  by (simp add: isActionableElement_def isElementVisible_def styleHidden_def Let_def)

lemma zero_size_actionable:
  assumes "r_width (el_rect (ctx_el c)) = 0 \<or> r_height (el_rect (ctx_el c)) = 0"
  shows "isActionableElement c
           = (list_ex childIsVisible (ctx_children c) \<and> isActionableElement (withUnitSize c))"
proof (cases "ctx_node c")
  case (DomNode e cs)
  have el: "ctx_el (withUnitSize c) = e\<lparr>el_rect := (el_rect e)\<lparr>r_width := 1, r_height := 1\<rparr>\<rparr>"
    by (simp add: withUnitSize_def ctx_el_def DomNode)
  have kids: "ctx_children (withUnitSize c) = ctx_children c"
    by (simp add: withUnitSize_def ctx_children_def DomNode)
  have anc: "ctx_ancestors (withUnitSize c) = ctx_ancestors c"
    by (simp add: withUnitSize_def DomNode)
  have self: "ctx_el c = e"
    by (simp add: ctx_el_def DomNode)
  show ?thesis
    using assms
    by (auto simp add: isActionableElement_def isElementVisible_def Let_def el kids anc self
          findScrollableAncestor_def getAttribute_def hasAttribute_def
          split: option.splits)
qed

lemma snapshot_records:
  assumes "r \<in> set (snap_elements (fst (captureDOM now candidates reg)))"
  shows "\<exists>c\<in>set candidates. \<exists>i. isActionableElement c
           \<and> fst (serializeElement now c i reg) = Some r"
proof -
  from assms obtain i c where
    "(i, c) \<in> set (enumerate 0 (getInteractiveElements candidates))"
    and "fst (serializeElement now c i reg) = Some r"
    unfolding captureDOM_records [where ?reg0.0 = reg]
    by auto
  moreover then have "c \<in> set candidates \<and> isActionableElement c"
    by (auto simp add: in_set_enumerate_eq getInteractiveElements_def dest: nth_mem)
  ultimately show ?thesis
    by blast
qed

lemma serialised_in_snapshot:
  assumes "i < length (getInteractiveElements candidates)"
    and "fst (serializeElement now (getInteractiveElements candidates ! i) i reg) = Some r"
  shows "r \<in> set (snap_elements (fst (captureDOM now candidates reg)))"
proof -
  let ?cs = "getInteractiveElements candidates"
  have "(i, ?cs ! i) \<in> set (enumerate 0 ?cs)"
    using assms(1) by (simp add: in_set_enumerate_eq)
  then have "Some r \<in> set (map (\<lambda>(i, c). fst (serializeElement now c i reg)) (enumerate 0 ?cs))"
    using assms(2) by force
  then have "Some r \<in> set (filter (\<lambda>el. el \<noteq> None)
                 (map (\<lambda>(i, c). fst (serializeElement now c i reg)) (enumerate 0 ?cs)))"
    by simp
  then have "the (Some r) \<in> the ` set (filter (\<lambda>el. el \<noteq> None)
                 (map (\<lambda>(i, c). fst (serializeElement now c i reg)) (enumerate 0 ?cs)))"
    by (rule imageI)
  then show ?thesis
    unfolding captureDOM_records [where ?reg0.0 = reg]
    by simp
qed

lemma serializeElement_selector:
  assumes "getElementText (ctx_el c) = Inr t"
  shows "\<exists>r. fst (serializeElement now c i reg) = Some r \<and> rec_selector r = generateSelector c"
  using assms by (simp add: serializeElement_def generateUID_def Let_def split: sum.splits)

text \<open>
  C7, as stated: a zero-size element with a visibly sized descendant passes the filter and
  appears in the snapshot. A link of zero size whose icon sits inside a wrapper of zero
  size has a visibly sized descendant and would pass every other check, yet it is filtered
  out: only the direct children are looked at. A list item of zero size around the icon
  passes the filter, and is absent from the snapshot because its serialisation throws.
\<close>

theorem zero_size_descendant_counterexample:
  "r_width (el_rect (ctx_el wrapped_icon_link)) = 0
   \<and> list_ex childIsVisible (descendants (ctx_node wrapped_icon_link))
   \<and> isActionableElement (withUnitSize wrapped_icon_link)
   \<and> \<not> isActionableElement wrapped_icon_link
   \<and> snap_elements (fst (captureDOM 0 [wrapped_icon_link] Map.empty)) = []
   \<and> r_width (el_rect (ctx_el numbered_item)) = 0
   \<and> list_ex childIsVisible (descendants (ctx_node numbered_item))
   \<and> isActionableElement numbered_item
   \<and> snap_elements (fst (captureDOM 0 [numbered_item] Map.empty)) = []"
proof -
  have a: "r_width (el_rect (ctx_el wrapped_icon_link)) = 0"
    by code_simp
  have b: "list_ex childIsVisible (descendants (ctx_node wrapped_icon_link))"
    by code_simp
  have c: "isActionableElement (withUnitSize wrapped_icon_link)"
    by code_simp
  have d: "\<not> isActionableElement wrapped_icon_link"
    by code_simp
  from d have e: "snap_elements (fst (captureDOM 0 [wrapped_icon_link] Map.empty)) = []"
    by (simp add: captureDOM_records [where ?reg0.0 = Map.empty] getInteractiveElements_def)
  have f: "r_width (el_rect (ctx_el numbered_item)) = 0"
    by code_simp
  have g: "list_ex childIsVisible (descendants (ctx_node numbered_item))"
    by code_simp
  have h: "isActionableElement numbered_item"
    by code_simp
  have "el_value (ctx_el numbered_item) = JsNumber 3"
    by (simp add: numbered_item_def ctx_el_def plain_element_def)
  then have "\<exists>err. getElementText (ctx_el numbered_item) = Inl err"
    by (simp add: getElementText_throws)
  then have "fst (serializeElement 0 numbered_item 0 Map.empty) = None"
    by (simp only: serializeElement_null)
  with h have i: "snap_elements (fst (captureDOM 0 [numbered_item] Map.empty)) = []"
    by (simp add: captureDOM_records [where ?reg0.0 = Map.empty] getInteractiveElements_def)
  from a b c d e f g h i show ?thesis
    by blast
qed

text \<open>
  C7, amended: an element whose computed display is \<open>none\<close> never passes the filter, and
  every record of a snapshot is the serialisation of a candidate that passed the filter,
  so that such an element is never among the elements of a snapshot; an element of zero
  width or height passes the actionability filter exactly when one of its direct children
  is neither \<open>display: none\<close> nor \<open>visibility: hidden\<close> and is more than one pixel wide
  and high, and the element passes the remaining checks, which are those the same element
  with a non-zero size has to pass. The records of a snapshot are the serialisations, in
  order, of the collected elements that pass the filter, those that throw left out: a
  collected element that passes the filter appears in the snapshot exactly when its
  serialisation does not throw.
\<close>

theorem hidden_excluded_zero_size_by_child:
  "(st_display (el_style (ctx_el c)) = ''none'' \<longrightarrow> c \<notin> set (getInteractiveElements candidates))
   \<and> (\<forall>r\<in>set (snap_elements (fst (captureDOM now candidates reg))).
         \<exists>c\<in>set candidates. \<exists>i. isActionableElement c
            \<and> st_display (el_style (ctx_el c)) \<noteq> ''none''
            \<and> fst (serializeElement now c i reg) = Some r)
   \<and> (r_width (el_rect (ctx_el c)) = 0 \<or> r_height (el_rect (ctx_el c)) = 0 \<longrightarrow>
        isActionableElement c
          = (list_ex childIsVisible (ctx_children c) \<and> isActionableElement (withUnitSize c)))
   \<and> snap_elements (fst (captureDOM now candidates reg))
        = map the (filter (\<lambda>el. el \<noteq> None)
            (map (\<lambda>(i, c). fst (serializeElement now c i reg))
               (enumerate 0 (filter isActionableElement candidates))))
   \<and> (\<forall>i r. i < length (filter isActionableElement candidates)
          \<and> fst (serializeElement now (filter isActionableElement candidates ! i) i reg) = Some r
        \<longrightarrow> r \<in> set (snap_elements (fst (captureDOM now candidates reg))))
   \<and> (snap_elements (fst (captureDOM now [c] reg)) \<noteq> [])
        = (isActionableElement c \<and> fst (serializeElement now c 0 reg) \<noteq> None)"
proof (intro conjI)
  show "st_display (el_style (ctx_el c)) = ''none'' \<longrightarrow> c \<notin> set (getInteractiveElements candidates)"
    using display_none_not_actionable [of c] by (auto simp add: getInteractiveElements_def)
next
  show "\<forall>r\<in>set (snap_elements (fst (captureDOM now candidates reg))).
          \<exists>c\<in>set candidates. \<exists>i. isActionableElement c
             \<and> st_display (el_style (ctx_el c)) \<noteq> ''none''
             \<and> fst (serializeElement now c i reg) = Some r"
  proof
    fix r
    assume "r \<in> set (snap_elements (fst (captureDOM now candidates reg)))"
    then obtain c i where "c \<in> set candidates" "isActionableElement c"
      "fst (serializeElement now c i reg) = Some r"
      using snapshot_records by blast
    moreover then have "st_display (el_style (ctx_el c)) \<noteq> ''none''"
      using display_none_not_actionable [of c] by blast
    ultimately show "\<exists>c\<in>set candidates. \<exists>i. isActionableElement c
             \<and> st_display (el_style (ctx_el c)) \<noteq> ''none''
             \<and> fst (serializeElement now c i reg) = Some r"
      by blast
  qed
next
  show "r_width (el_rect (ctx_el c)) = 0 \<or> r_height (el_rect (ctx_el c)) = 0 \<longrightarrow>
        isActionableElement c
          = (list_ex childIsVisible (ctx_children c) \<and> isActionableElement (withUnitSize c))"
    using zero_size_actionable [of c] by blast
next
  show "snap_elements (fst (captureDOM now candidates reg))
        = map the (filter (\<lambda>el. el \<noteq> None)
            (map (\<lambda>(i, c). fst (serializeElement now c i reg))
               (enumerate 0 (filter isActionableElement candidates))))"
    using captureDOM_records [of now candidates reg reg]
    by (simp add: getInteractiveElements_def)
next
  show "\<forall>i r. i < length (filter isActionableElement candidates)
          \<and> fst (serializeElement now (filter isActionableElement candidates ! i) i reg) = Some r
        \<longrightarrow> r \<in> set (snap_elements (fst (captureDOM now candidates reg)))"
  proof (intro allI impI)
    fix i r
    assume "i < length (filter isActionableElement candidates)
              \<and> fst (serializeElement now (filter isActionableElement candidates ! i) i reg) = Some r"
    then show "r \<in> set (snap_elements (fst (captureDOM now candidates reg)))"
      using serialised_in_snapshot [of i candidates now reg r]
      by (simp add: getInteractiveElements_def)
  qed
next
  show "(snap_elements (fst (captureDOM now [c] reg)) \<noteq> [])
          = (isActionableElement c \<and> fst (serializeElement now c 0 reg) \<noteq> None)"
    by (simp add: captureDOM_records [where ?reg0.0 = reg] getInteractiveElements_def)
qed

theorem hidden_excluded_zero_size_by_child_witness:
  "st_display (el_style (ctx_el hidden_button)) = ''none''
   \<and> hidden_button \<notin> set (getInteractiveElements [hidden_button, icon_link, numbered_item])
   \<and> r_width (el_rect (ctx_el icon_link)) = 0
   \<and> list_ex childIsVisible (ctx_children icon_link)
   \<and> isActionableElement icon_link
   \<and> isActionableElement numbered_item
   \<and> fst (serializeElement 0 numbered_item (Suc 0) Map.empty) = None
   \<and> map rec_selector
        (snap_elements (fst (captureDOM 0 [hidden_button, icon_link, numbered_item] Map.empty)))
       = [''a'']"
proof -
  let ?page = "[hidden_button, icon_link, numbered_item]"
  have h: "st_display (el_style (ctx_el hidden_button)) = ''none''"
    by code_simp
  have z: "r_width (el_rect (ctx_el icon_link)) = 0"
    by code_simp
  have k: "list_ex childIsVisible (ctx_children icon_link)"
    by code_simp
  have u: "isActionableElement (withUnitSize icon_link)"
    by code_simp
  have s: "generateSelector icon_link = ''a''"
    by code_simp
  have "getElementText (ctx_el icon_link) = Inr []"
    by code_simp
  then obtain r where link: "fst (serializeElement 0 icon_link 0 Map.empty) = Some r"
    "rec_selector r = generateSelector icon_link"
    using serializeElement_selector by blast
  have n: "isActionableElement numbered_item"
    by code_simp
  have "el_value (ctx_el numbered_item) = JsNumber 3"
    by (simp add: numbered_item_def ctx_el_def plain_element_def)
  then have "\<exists>err. getElementText (ctx_el numbered_item) = Inl err"
    by (simp add: getElementText_throws)
  then have dropped: "fst (serializeElement 0 numbered_item (Suc 0) Map.empty) = None"
    by (simp only: serializeElement_null)
  note main = hidden_excluded_zero_size_by_child
  from main [of hidden_button ?page 0 Map.empty] h
  have out: "hidden_button \<notin> set (getInteractiveElements ?page)"
    by blast
  from main [of icon_link ?page 0 Map.empty] z k u
  have act: "isActionableElement icon_link"
    by blast
  from out have nb: "\<not> isActionableElement hidden_button"
    by (auto simp add: getInteractiveElements_def split: if_splits)
  from main [of icon_link ?page 0 Map.empty]
  have "snap_elements (fst (captureDOM 0 ?page Map.empty))
          = map the (filter (\<lambda>el. el \<noteq> None)
              (map (\<lambda>(i, c). fst (serializeElement 0 c i Map.empty))
                 (enumerate 0 (filter isActionableElement ?page))))"
    by blast
  then have "map rec_selector (snap_elements (fst (captureDOM 0 ?page Map.empty))) = [''a'']"
    by (simp add: act nb n dropped link s)
  with h out z k act n dropped show ?thesis
    by simp
qed

subsection \<open>What a capture does to the registry\<close>

lemma serializeElement_registry:
  "snd (serializeElement now c i reg)
     = (case fst (serializeElement now c i reg) of
          None \<Rightarrow> reg
        | Some r \<Rightarrow> reg(rec_uid r \<mapsto> freshEntry now r))"
  by (simp add: serializeElement_def Let_def registerUID_def freshEntry_def recordLocators_def
        split: sum.splits)

lemma serializeAll_Cons:
  "fst (serializeAll now (c # cs) k reg)
     = fst (serializeElement now c k reg)
         # fst (serializeAll now cs (Suc k) (snd (serializeElement now c k reg)))"
  "snd (serializeAll now (c # cs) k reg)
     = snd (serializeAll now cs (Suc k) (snd (serializeElement now c k reg)))"
  by (simp_all add: split_beta)

declare serializeAll.simps(2) [simp del]

lemma serializeAll_keeps:
  "(\<And>r. Some r \<in> set (fst (serializeAll now cs k reg)) \<Longrightarrow> rec_uid r \<noteq> uid)
     \<Longrightarrow> snd (serializeAll now cs k reg) uid = reg uid"
proof (induction cs arbitrary: k reg)
  case Nil
  show ?case by simp
next
  case (Cons c cs)
  let ?reg1 = "snd (serializeElement now c k reg)"
  have rest: "snd (serializeAll now cs (Suc k) ?reg1) uid = ?reg1 uid"
  proof (rule Cons.IH)
    fix r
    assume "Some r \<in> set (fst (serializeAll now cs (Suc k) ?reg1))"
    then have "Some r \<in> set (fst (serializeAll now (c # cs) k reg))"
      by (simp add: serializeAll_Cons)
    then show "rec_uid r \<noteq> uid"
      by (rule Cons.prems)
  qed
  have head: "?reg1 uid = reg uid"
  proof (cases "fst (serializeElement now c k reg)")
    case None
    then show ?thesis
      by (simp add: serializeElement_registry)
  next
    case (Some r)
    then have "Some r \<in> set (fst (serializeAll now (c # cs) k reg))"
      by (simp add: serializeAll_Cons)
    then have "rec_uid r \<noteq> uid"
      by (rule Cons.prems)
    with Some show ?thesis
      by (simp add: serializeElement_registry)
  qed
  from rest head show ?case
    by (simp add: serializeAll_Cons)
qed

lemma serializeAll_registers:
  "Some r \<in> set (fst (serializeAll now cs k reg))
     \<Longrightarrow> \<exists>r'. Some r' \<in> set (fst (serializeAll now cs k reg)) \<and> rec_uid r' = rec_uid r
               \<and> snd (serializeAll now cs k reg) (rec_uid r) = Some (freshEntry now r')"
proof (induction cs arbitrary: k reg r)
  case Nil
  then show ?case by simp
next
  case (Cons c cs)
  let ?reg1 = "snd (serializeElement now c k reg)"
  let ?rest = "fst (serializeAll now cs (Suc k) ?reg1)"
  show ?case
  proof (cases "\<exists>r2. Some r2 \<in> set ?rest \<and> rec_uid r2 = rec_uid r")
    case True
    then obtain r2 where later: "Some r2 \<in> set ?rest" and same: "rec_uid r2 = rec_uid r"
      by blast
    from Cons.IH [OF later]
    obtain r' where "Some r' \<in> set ?rest" "rec_uid r' = rec_uid r2"
      "snd (serializeAll now cs (Suc k) ?reg1) (rec_uid r2) = Some (freshEntry now r')"
      by blast
    with same show ?thesis
      by (intro exI [of _ r']) (simp add: serializeAll_Cons)
  next
    case False
    then have kept: "snd (serializeAll now cs (Suc k) ?reg1) (rec_uid r) = ?reg1 (rec_uid r)"
      by (intro serializeAll_keeps) auto
    from False Cons.prems have head: "fst (serializeElement now c k reg) = Some r"
      by (auto simp add: serializeAll_Cons)
    then have "?reg1 (rec_uid r) = Some (freshEntry now r)"
      by (simp add: serializeElement_registry)
    with kept head show ?thesis
      by (intro exI [of _ r]) (simp add: serializeAll_Cons)
  qed
qed

lemma snapshot_elements:
  "set (snap_elements (fst (captureDOM now candidates reg)))
     = {r. Some r \<in> set (fst (serializeAll now (getInteractiveElements candidates) 0 reg))}"
  by (force simp add: captureDOM_def Let_def split_beta)

lemma snapshot_ignores_registry:
  "fst (captureDOM now candidates reg) = fst (captureDOM now candidates reg0)"
  by (simp add: captureDOM_def Let_def split_beta serializeAll_records [where ?reg0.0 = reg0])

lemma captureDOM_keeps:
  assumes "uid \<notin> set (snapshotUids now candidates)"
  shows "snd (captureDOM now candidates reg) uid = reg uid"
proof -
  have "snd (serializeAll now (getInteractiveElements candidates) 0 reg) uid = reg uid"
  proof (rule serializeAll_keeps)
    fix r
    assume "Some r \<in> set (fst (serializeAll now (getInteractiveElements candidates) 0 reg))"
    then have "r \<in> set (snap_elements (fst (captureDOM now candidates reg)))"
      by (simp add: snapshot_elements)
    then have "r \<in> set (snap_elements (fst (captureDOM now candidates Map.empty)))"
      by (simp add: snapshot_ignores_registry [of now candidates reg Map.empty])
    with assms show "rec_uid r \<noteq> uid"
      by (auto simp add: snapshotUids_def)
  qed
  then show ?thesis
    by (simp add: captureDOM_def Let_def split_beta)
qed

lemma captureDOM_registers:
  assumes "r \<in> set (snap_elements (fst (captureDOM now candidates reg)))"
  shows "\<exists>r'\<in>set (snap_elements (fst (captureDOM now candidates reg))).
           rec_uid r' = rec_uid r
           \<and> snd (captureDOM now candidates reg) (rec_uid r) = Some (freshEntry now r')"
proof -
  let ?cs = "getInteractiveElements candidates"
  from assms have "Some r \<in> set (fst (serializeAll now ?cs 0 reg))"
    by (simp add: snapshot_elements)
  from serializeAll_registers [OF this]
  obtain r' where "Some r' \<in> set (fst (serializeAll now ?cs 0 reg))" "rec_uid r' = rec_uid r"
    "snd (serializeAll now ?cs 0 reg) (rec_uid r) = Some (freshEntry now r')"
    by blast
  moreover then have "r' \<in> set (snap_elements (fst (captureDOM now candidates reg)))"
    by (simp add: snapshot_elements)
  moreover have "snd (captureDOM now candidates reg) = snd (serializeAll now ?cs 0 reg)"
    by (simp add: captureDOM_def Let_def split_beta)
  ultimately show ?thesis
    by auto
qed

lemma save_ctx_actionable: "isActionableElement save_ctx"
  by code_simp

lemma save_ctx_uid: "generateUID save_ctx 0 = Inr ''elem_id_save''"
  by code_simp

lemma save_ctx_text: "getElementText (ctx_el save_ctx) = Inr ''Save changes''"
  by code_simp

lemma save_ctx_record:
  "fst (serializeElement now save_ctx 0 reg)
     = Some \<lparr>rec_uid = ''elem_id_save'', rec_tag = ''button'', rec_type = ''button'',
             rec_text = ''Save changes'',
             rec_attributes = [(''id'', ''save''), (''type'', ''submit'')], rec_tabIndex = 0,
             rec_selector = ''#save'', rec_xpath = ''//*[@id=\"save\"]''\<rparr>"
proof -
  have "js_toLowerCase (el_tagName (ctx_el save_ctx)) = ''button''"
    "getElementType (ctx_el save_ctx) = ''button''"
    "getRelevantAttributes (ctx_el save_ctx) = [(''id'', ''save''), (''type'', ''submit'')]"
    "el_tabIndex (ctx_el save_ctx) = 0"
    "generateSelector save_ctx = ''#save''"
    "generateXPath save_ctx = ''//*[@id=\"save\"]''"
    by code_simp+
  then show ?thesis
    by (simp add: serializeElement_record [OF save_ctx_uid save_ctx_text])
qed

lemma save_ctx_snapshot:
  "snap_elements (fst (captureDOM now [save_ctx] reg))
     = [\<lparr>rec_uid = ''elem_id_save'', rec_tag = ''button'', rec_type = ''button'',
         rec_text = ''Save changes'',
         rec_attributes = [(''id'', ''save''), (''type'', ''submit'')], rec_tabIndex = 0,
         rec_selector = ''#save'', rec_xpath = ''//*[@id=\"save\"]''\<rparr>]"
  by (simp add: captureDOM_records [where ?reg0.0 = reg] getInteractiveElements_def
        save_ctx_actionable save_ctx_record)

lemma save_ctx_registered:
  "snd (captureDOM now [save_ctx] reg) ''elem_id_save''
     = Some (save_entry\<lparr>re_timestamp := now\<rparr>)"
proof -
  let ?r = "\<lparr>rec_uid = ''elem_id_save'', rec_tag = ''button'', rec_type = ''button'',
             rec_text = ''Save changes'',
             rec_attributes = [(''id'', ''save''), (''type'', ''submit'')], rec_tabIndex = 0,
             rec_selector = ''#save'', rec_xpath = ''//*[@id=\"save\"]''\<rparr>"
  have "?r \<in> set (snap_elements (fst (captureDOM now [save_ctx] reg)))"
    by (simp add: save_ctx_snapshot)
  from captureDOM_registers [OF this]
  have "snd (captureDOM now [save_ctx] reg) ''elem_id_save'' = Some (freshEntry now ?r)"
    by (simp add: save_ctx_snapshot)
  then show ?thesis
    by (simp add: freshEntry_def recordLocators_def save_entry_def locators.extend_def)
qed

section \<open>Properties of the registry and the resolver\<close>

lemma getElementByUID_registry:
  "fst (getElementByUID doc reg uid)
     = (case reg uid of
          None \<Rightarrow> reg
        | Some entry \<Rightarrow> reg(uid \<mapsto> entry\<lparr>re_accessCount := re_accessCount entry + 1\<rparr>))"
  by (simp add: getElementByUID_def Let_def split: option.splits sum.splits)

lemma valid_is_some: "isElementValid c \<Longrightarrow> c \<noteq> None"
  by (cases c) (simp_all add: isElementValid_def)

lemma isElementValid_None: "\<not> isElementValid None"
  by (simp add: isElementValid_def)

lemma firstAccepted_Nil: "firstAccepted [] = None"
  by (simp add: firstAccepted_def)

lemma firstAccepted_Cons:
  "firstAccepted (c # cs) = (if isElementValid c then c else firstAccepted cs)"
  by (simp add: firstAccepted_def)

lemma tryQuery_css:
  "(if truthy (loc_selector entry) then tryQuery (querySelector doc (loc_selector entry)) else None)
     = (if isElementValid (cssCandidate doc entry) then cssCandidate doc entry else None)"
  by (simp add: cssCandidate_def tryQuery_def isElementValid_def split: sum.splits)

lemma tryQuery_xpath:
  "(if truthy (loc_xpath entry) then tryQuery (evaluateXPath doc (loc_xpath entry)) else None)
     = (if isElementValid (xpathCandidate doc entry) then xpathCandidate doc entry else None)"
  by (simp add: xpathCandidate_def tryQuery_def isElementValid_def split: sum.splits)

lemma tryQuery_attributes:
  "(case loc_attributes entry of
      None \<Rightarrow> None
    | Some attrs \<Rightarrow> tryQuery (Inr (findByAttributes doc attrs (loc_tag entry))))
     = (if isElementValid (attributeCandidate doc entry) then attributeCandidate doc entry else None)"
  by (simp add: attributeCandidate_def tryQuery_def isElementValid_def split: option.splits)

lemma getElementByUID_nested:
  assumes "reg uid = Some entry0"
  shows "snd (getElementByUID doc reg uid)
           = (if isElementValid (cssCandidate doc entry0) then Inr (cssCandidate doc entry0)
              else if isElementValid (xpathCandidate doc entry0)
                   then Inr (xpathCandidate doc entry0)
              else if isElementValid (attributeCandidate doc entry0)
                   then Inr (attributeCandidate doc entry0)
              else if truthy (loc_text entry0) \<and> truthy (loc_tag entry0)
                   then (case findByText doc (loc_text entry0) (loc_tag entry0) of
                           Inl err \<Rightarrow> Inl err
                         | Inr e \<Rightarrow> Inr (if isElementValid e then e else None))
              else Inr None)"
proof -
  define entry where "entry = entry0\<lparr>re_accessCount := re_accessCount entry0 + 1\<rparr>"
  have same: "cssCandidate doc entry = cssCandidate doc entry0"
    "xpathCandidate doc entry = xpathCandidate doc entry0"
    "attributeCandidate doc entry = attributeCandidate doc entry0"
    "loc_text entry = loc_text entry0" "loc_tag entry = loc_tag entry0"
    by (simp_all add: entry_def cssCandidate_def xpathCandidate_def attributeCandidate_def
          split: option.splits)
  have "snd (getElementByUID doc reg uid)
          = (if isElementValid (cssCandidate doc entry) then Inr (cssCandidate doc entry)
             else if isElementValid (xpathCandidate doc entry) then Inr (xpathCandidate doc entry)
             else if isElementValid (attributeCandidate doc entry)
                  then Inr (attributeCandidate doc entry)
             else if truthy (loc_text entry) \<and> truthy (loc_tag entry)
                  then (case findByText doc (loc_text entry) (loc_tag entry) of
                          Inl err \<Rightarrow> Inl err
                        | Inr e \<Rightarrow> Inr (if isElementValid e then e else None))
             else Inr None)"
  proof (cases "findByText doc (loc_text entry) (loc_tag entry)")
    case (Inl err)
    show ?thesis
      unfolding getElementByUID_def Let_def
      using assms Inl
      by (simp only: option.case entry_def [symmetric] tryQuery_css tryQuery_xpath
            tryQuery_attributes)
         (auto simp add: valid_is_some isElementValid_None)
  next
    case (Inr found)
    show ?thesis
      unfolding getElementByUID_def Let_def
      using assms Inr
      by (simp only: option.case entry_def [symmetric] tryQuery_css tryQuery_xpath
            tryQuery_attributes)
         (auto simp add: valid_is_some isElementValid_None)
  qed
  then show ?thesis
    by (simp only: same)
qed

lemma getElementByUID_result:
  assumes "reg uid = Some entry0"
    and "querySelectorAll doc (loc_tag entry0) = Inr els"
  shows "snd (getElementByUID doc reg uid)
           = Inr (firstAccepted [cssCandidate doc entry0, xpathCandidate doc entry0,
                                 attributeCandidate doc entry0, textCandidate doc entry0])"
proof -
  have "\<exists>found. findByText doc (loc_text entry0) (loc_tag entry0) = Inr found"
    using assms(2) by (auto simp add: findByText_def split: option.splits)
  then obtain found where found: "findByText doc (loc_text entry0) (loc_tag entry0) = Inr found"
    by blast
  have byText: "textCandidate doc entry0
                  = (if truthy (loc_text entry0) \<and> truthy (loc_tag entry0) then found else None)"
    by (simp add: textCandidate_def found)
  show ?thesis
  proof (cases "truthy (loc_text entry0) \<and> truthy (loc_tag entry0)")
    case True
    then show ?thesis
      by (simp add: getElementByUID_nested [where reg = reg and uid = uid, OF assms(1)]
            firstAccepted_Cons firstAccepted_Nil byText found)
  next
    case False
    then have untried: "(truthy (loc_text entry0) \<and> truthy (loc_tag entry0)) = False"
      by simp
    show ?thesis
      by (simp add: getElementByUID_nested [where reg = reg and uid = uid, OF assms(1)]
            firstAccepted_Cons firstAccepted_Nil byText isElementValid_None untried)
  qed
qed



lemma firstAccepted_valid:
  "firstAccepted cs = Some e \<Longrightarrow> isElementValid (Some e)"
  by (auto simp add: firstAccepted_def find_Some_iff split: option.splits)



lemma getElementByUID_text_query_throws:
  assumes "reg uid = Some entry"
    and "\<not> isElementValid (cssCandidate doc entry)"
    and "\<not> isElementValid (xpathCandidate doc entry)"
    and "\<not> isElementValid (attributeCandidate doc entry)"
    and "truthy (loc_text entry)" and "truthy (loc_tag entry)"
    and "querySelectorAll doc (loc_tag entry) = Inl err"
  shows "snd (getElementByUID doc reg uid) = Inl err"
  using assms(2-7)
  by (simp add: getElementByUID_nested [where reg = reg and uid = uid, OF assms(1)]
        findByText_def)

subsection \<open>The attribute query\<close>








subsection \<open>The resolution order\<close>




subsection \<open>Look-ups, sweeps and captures\<close>

lemma applyOp_keeps_accessed:
  assumes "reg uid = Some e" and "re_accessCount e \<ge> 1" and "\<not> registersUid uid op"
  shows "\<exists>e'. applyOp op reg uid = Some e' \<and> re_accessCount e' \<ge> 1"
proof (cases op)
  case (Lookup doc u)
  then show ?thesis
    using assms by (auto simp add: getElementByUID_registry split: option.splits)
next
  case (Sweep now)
  then show ?thesis
    using assms by (simp add: cleanupRegistry_def)
next
  case (Register now u selectors)
  then show ?thesis
    using assms by (simp add: registerUID_def registersUid_def)
next
  case (Recapture now candidates)
  with assms(3) have "uid \<notin> set (snapshotUids now candidates)"
    by (simp add: registersUid_def)
  then have "snd (captureDOM now candidates reg) uid = reg uid"
    by (rule captureDOM_keeps)
  with Recapture assms(1,2) show ?thesis
    by simp
qed

lemma applyOps_keeps_accessed:
  assumes "reg uid = Some e" and "re_accessCount e \<ge> 1"
    and "\<forall>op\<in>set ops. \<not> registersUid uid op"
  shows "\<exists>e'. applyOps ops reg uid = Some e' \<and> re_accessCount e' \<ge> 1"
  using assms
proof (induction ops arbitrary: reg e)
  case Nil
  then show ?case by simp
next
  case (Cons op ops)
  from Cons.prems have "\<not> registersUid uid op"
    by simp
  from applyOp_keeps_accessed [where reg = reg and uid = uid and e = e and op = op,
         OF Cons.prems(1,2) this]
  obtain e1 where "applyOp op reg uid = Some e1" "re_accessCount e1 \<ge> 1"
    by blast
  moreover from Cons.prems have "\<forall>op\<in>set ops. \<not> registersUid uid op"
    by simp
  ultimately show ?case
    using Cons.IH [of "applyOp op reg" e1] by simp
qed

text \<open>
  C10, as stated: the sweep never prunes an entry whose uid has been looked up at least
  once, regardless of its age. The uid \<open>elem_id_save\<close> is registered and looked up, so
  that its access count is 1; the next capture of the page, at time 1, finds the Save
  button, registers \<open>elem_id_save\<close> again and thereby sets the access count to 0; the
  sweep at time 1800002 deletes the entry. The same happens after a plain call of
  \<open>registerUID\<close>.
\<close>

theorem reregistered_entry_swept_counterexample:
  "save_registry ''elem_id_save'' = Some save_entry
   \<and> map_option re_accessCount
       (fst (getElementByUID empty_document save_registry ''elem_id_save'') ''elem_id_save'')
       = Some 1
   \<and> snapshotUids 1 [save_ctx] = [''elem_id_save'']
   \<and> applyOps [Recapture 1 [save_ctx], Sweep 1800002]
       (fst (getElementByUID empty_document save_registry ''elem_id_save'')) ''elem_id_save''
       = None
   \<and> applyOps [Register 1 ''elem_id_save'' (locators.truncate save_entry), Sweep 1800002]
       (fst (getElementByUID empty_document save_registry ''elem_id_save'')) ''elem_id_save''
       = None"
proof -
  let ?reg = "fst (getElementByUID empty_document save_registry ''elem_id_save'')"
  have registered: "save_registry ''elem_id_save'' = Some save_entry"
    by (simp add: save_registry_def)
  have looked: "?reg ''elem_id_save'' = Some (save_entry\<lparr>re_accessCount := 1\<rparr>)"
    by (simp add: getElementByUID_registry registered save_entry_def)
  then have counted: "map_option re_accessCount (?reg ''elem_id_save'') = Some 1"
    by simp
  have uids: "snapshotUids 1 [save_ctx] = [''elem_id_save'']"
    by (simp add: snapshotUids_def save_ctx_snapshot)
  have "snd (captureDOM 1 [save_ctx] ?reg) ''elem_id_save'' = Some (save_entry\<lparr>re_timestamp := 1\<rparr>)"
    by (rule save_ctx_registered)
  then have captured: "applyOps [Recapture 1 [save_ctx], Sweep 1800002] ?reg ''elem_id_save'' = None"
    by (simp add: cleanupRegistry_def maxAge_def save_entry_def)
  have again: "applyOps [Register 1 ''elem_id_save'' (locators.truncate save_entry), Sweep 1800002]
                 ?reg ''elem_id_save'' = None"
    by (simp add: registerUID_def cleanupRegistry_def maxAge_def locators.extend_def)
  from registered counted uids captured again show ?thesis
    by blast
qed

text \<open>
  C10, amended: a look-up of a registered uid increments the access count of its entry
  whatever the strategies then find, also when nothing is found or the text query throws;
  the sweep deletes an entry only if it is older than thirty minutes and its access count
  is zero. So an entry that has been looked up since its uid was last registered survives
  every later sequence of look-ups, sweeps at any time whatever, registrations of other
  uids and captures that do not find its element. A registration of the same uid, which
  a capture makes for each element of its snapshot, replaces the entry by a fresh one
  with the time of the registration and an access count of zero.
\<close>

theorem looked_up_entry_survives_sweeps:
  assumes "reg uid = Some entry"
    and "\<forall>op\<in>set ops. \<not> registersUid uid op"
  shows "fst (getElementByUID doc reg uid) uid
           = Some (entry\<lparr>re_accessCount := re_accessCount entry + 1\<rparr>)
         \<and> (\<forall>e now. reg uid = Some e \<and> re_accessCount e \<ge> 1 \<longrightarrow> cleanupRegistry now reg uid = Some e)
         \<and> (\<forall>e now. cleanupRegistry now reg uid = None \<and> reg uid = Some e
                \<longrightarrow> now - re_timestamp e > 30 * 60 * 1000 \<and> re_accessCount e = 0)
         \<and> (\<exists>e'. applyOps ops (fst (getElementByUID doc reg uid)) uid = Some e'
                   \<and> re_accessCount e' \<ge> 1)
         \<and> (\<forall>now selectors. \<exists>e'. registerUID now uid selectors (fst (getElementByUID doc reg uid)) uid
                                     = Some e'
                \<and> re_accessCount e' = 0 \<and> re_timestamp e' = now)
         \<and> (\<forall>now candidates. uid \<in> set (snapshotUids now candidates)
                \<longrightarrow> (\<exists>e'. snd (captureDOM now candidates (fst (getElementByUID doc reg uid))) uid
                             = Some e'
                          \<and> re_accessCount e' = 0 \<and> re_timestamp e' = now))
         \<and> (\<forall>now candidates. uid \<notin> set (snapshotUids now candidates)
                \<longrightarrow> snd (captureDOM now candidates (fst (getElementByUID doc reg uid))) uid
                      = Some (entry\<lparr>re_accessCount := re_accessCount entry + 1\<rparr>))"
proof -
  let ?reg = "fst (getElementByUID doc reg uid)"
  have inc: "?reg uid = Some (entry\<lparr>re_accessCount := re_accessCount entry + 1\<rparr>)"
    using assms(1) by (simp add: getElementByUID_registry)
  have keep: "cleanupRegistry now reg uid = Some e"
    if "reg uid = Some e \<and> re_accessCount e \<ge> 1" for e now
    using that by (simp add: cleanupRegistry_def)
  have only: "now - re_timestamp e > 30 * 60 * 1000 \<and> re_accessCount e = 0"
    if "cleanupRegistry now reg uid = None \<and> reg uid = Some e" for e now
    using that by (auto simp add: cleanupRegistry_def maxAge_def split: if_splits)
  have later: "\<exists>e'. applyOps ops ?reg uid = Some e' \<and> re_accessCount e' \<ge> 1"
    using applyOps_keeps_accessed
            [where reg = ?reg and uid = uid and ops = ops
               and e = "entry\<lparr>re_accessCount := re_accessCount entry + 1\<rparr>"]
          inc assms(2)
    by simp
  have again: "\<exists>e'. registerUID now uid selectors ?reg uid = Some e'
                 \<and> re_accessCount e' = 0 \<and> re_timestamp e' = now" for now selectors
    by (simp add: registerUID_def locators.extend_def)
  have recaptured: "\<exists>e'. snd (captureDOM now candidates ?reg) uid = Some e'
                      \<and> re_accessCount e' = 0 \<and> re_timestamp e' = now"
    if "uid \<in> set (snapshotUids now candidates)" for now candidates
  proof -
    from that obtain r where "r \<in> set (snap_elements (fst (captureDOM now candidates ?reg)))"
      and "rec_uid r = uid"
      by (auto simp add: snapshotUids_def snapshot_ignores_registry [of now candidates ?reg Map.empty])
    with captureDOM_registers [of r now candidates ?reg]
    obtain r' where "snd (captureDOM now candidates ?reg) uid = Some (freshEntry now r')"
      by auto
    then show ?thesis
      by (simp add: freshEntry_def locators.extend_def)
  qed
  have untouched: "snd (captureDOM now candidates ?reg) uid
                     = Some (entry\<lparr>re_accessCount := re_accessCount entry + 1\<rparr>)"
    if "uid \<notin> set (snapshotUids now candidates)" for now candidates
    using captureDOM_keeps [OF that, of ?reg] inc by simp
  from inc keep only later again recaptured untouched show ?thesis
    by blast
qed

theorem looked_up_entry_survives_sweeps_witness:
  "save_registry ''elem_id_save'' = Some save_entry
   \<and> re_accessCount save_entry = 0
   \<and> cleanupRegistry 1800001 save_registry ''elem_id_save'' = None
   \<and> snd (getElementByUID empty_document save_registry ''elem_id_save'') = Inr None
   \<and> ''elem_id_save'' \<notin> set (snapshotUids 7 [radio_red])
   \<and> ''elem_id_save'' \<in> set (snapshotUids 7 [save_ctx])
   \<and> (\<exists>e'. applyOps [Sweep 1800001, Lookup empty_document ''other'', Sweep 999999999,
                         Register 5 ''other'' (locators.truncate save_entry),
                         Recapture 7 [radio_red], Sweep 999999999]
                (fst (getElementByUID empty_document save_registry ''elem_id_save''))
                ''elem_id_save'' = Some e'
            \<and> re_accessCount e' \<ge> 1)
   \<and> (\<exists>e'. snd (captureDOM 7 [save_ctx]
                    (fst (getElementByUID empty_document save_registry ''elem_id_save'')))
               ''elem_id_save'' = Some e'
            \<and> re_accessCount e' = 0 \<and> re_timestamp e' = 7)"
proof -
  let ?ops = "[Sweep 1800001, Lookup empty_document ''other'', Sweep 999999999,
               Register 5 ''other'' (locators.truncate save_entry),
               Recapture 7 [radio_red], Sweep 999999999]"
  have registered: "save_registry ''elem_id_save'' = Some save_entry"
    by (simp add: save_registry_def)
  have fresh: "re_accessCount save_entry = 0"
    by (simp add: save_entry_def)
  have swept: "cleanupRegistry 1800001 save_registry ''elem_id_save'' = None"
    by (simp add: cleanupRegistry_def save_registry_def save_entry_def maxAge_def)
  have answers: "querySelectorAll empty_document (loc_tag save_entry) = Inr []"
    by (simp add: empty_document_def)
  have "firstAccepted [cssCandidate empty_document save_entry,
                       xpathCandidate empty_document save_entry,
                       attributeCandidate empty_document save_entry,
                       textCandidate empty_document save_entry] = None"
    by code_simp
  then have failed: "snd (getElementByUID empty_document save_registry ''elem_id_save'') = Inr None"
    using getElementByUID_result
            [where reg = save_registry and uid = "''elem_id_save''" and ?entry0.0 = save_entry
               and doc = empty_document and els = "[]", OF registered answers]
    by simp
  have "snapshotUids 7 [radio_red] = [''elem_name_color'']"
    by (simp add: snapshotUids_def captureDOM_records [where ?reg0.0 = Map.empty]
          getInteractiveElements_def radio_red_actionable
          serializeElement_record [OF radio_red_uid radio_red_text])
  then have radio: "''elem_id_save'' \<notin> set (snapshotUids 7 [radio_red])"
    by simp
  have save: "''elem_id_save'' \<in> set (snapshotUids 7 [save_ctx])"
    by (simp add: snapshotUids_def save_ctx_snapshot)
  from radio have others: "\<forall>op\<in>set ?ops. \<not> registersUid ''elem_id_save'' op"
    by (simp add: registersUid_def)
  note main = looked_up_entry_survives_sweeps
         [where reg = save_registry and uid = "''elem_id_save''" and entry = save_entry
            and doc = empty_document and ops = ?ops, OF registered others]
  from main
  have survives: "\<exists>e'. applyOps ?ops
                (fst (getElementByUID empty_document save_registry ''elem_id_save''))
                ''elem_id_save'' = Some e'
            \<and> re_accessCount e' \<ge> 1"
    by blast
  from main save
  have replaced: "\<exists>e'. snd (captureDOM 7 [save_ctx]
                    (fst (getElementByUID empty_document save_registry ''elem_id_save'')))
               ''elem_id_save'' = Some e'
            \<and> re_accessCount e' = 0 \<and> re_timestamp e' = 7"
    by blast
  from registered fresh swept failed radio save survives replaced show ?thesis
    by blast
qed

section \<open>Properties of the type action\<close>

lemma setValueReactSafe_plain:
  assumes "plainTextInput el"
  shows "setValueReactSafe (Some el) v
           = (True, Some (el\<lparr>in_value := v,
                              in_writes := in_writes el @ [ViaPrototypeSetter v],
                              in_events := in_events el @ [''input'', ''change'']\<rparr>))"
  using assms
  by (simp add: plainTextInput_def setValueReactSafe_def callProtoSetter_def
        notifyInputChange_def dispatchEvent_def Let_def)

lemma setElementValue_plain:
  assumes "plainTextInput el"
  shows "setElementValue el v
           = Inr (el\<lparr>in_value := v,
                      in_writes := in_writes el @ [ViaPrototypeSetter v],
                      in_events := in_events el @ [''input'', ''change'']\<rparr>)"
  using assms
  by (simp add: plainTextInput_def setElementValue_def callProtoSetter_def
        notifyInputChange_def dispatchEvent_def)

text \<open>
  C8: typing \<open>hello\<close> into a plain text input leaves the element with the value
  \<open>hello\<close>, written through the value setter of the prototype, and dispatches one
  \<open>input\<close> event followed by one \<open>change\<close> event on it; both revisions of the
  script do so, and so for every text.
\<close>

theorem type_into_plain_text_input:
  assumes "plainTextInput el"
  shows "(\<exists>el'. typeIntoElement later el v = (\<lparr>to_ok = True, to_mode = ''input''\<rparr>, Some el')
              \<and> setValueReactSafe (Some el) v = (True, Some el')
              \<and> setElementValue el v = Inr el'
              \<and> in_value el' = v
              \<and> in_writes el' = in_writes el @ [ViaPrototypeSetter v]
              \<and> in_events el' = in_events el @ [''input'', ''change'']
              \<and> count_list (drop (length (in_events el)) (in_events el')) ''input'' = 1
              \<and> count_list (drop (length (in_events el)) (in_events el')) ''change'' = 1)"
proof -
  define el' where
    "el' = el\<lparr>in_value := v, in_writes := in_writes el @ [ViaPrototypeSetter v],
              in_events := in_events el @ [''input'', ''change'']\<rparr>"
  have safe: "setValueReactSafe (Some el) v = (True, Some el')"
    using assms by (simp add: setValueReactSafe_plain el'_def)
  have old: "setElementValue el v = Inr el'"
    using assms by (simp add: setElementValue_plain el'_def)
  have tag: "js_toLowerCase (in_tagName el) = ''input''"
    using assms by (simp add: plainTextInput_def)
  have typed: "typeIntoElement later el v = (\<lparr>to_ok = True, to_mode = ''input''\<rparr>, Some el')"
    by (simp add: typeIntoElement_def Let_def tag safe)
  have fields: "in_value el' = v" "in_writes el' = in_writes el @ [ViaPrototypeSetter v]"
    "in_events el' = in_events el @ [''input'', ''change'']"
    by (simp_all add: el'_def)
  have counts: "count_list (drop (length (in_events el)) (in_events el')) ''input'' = 1"
    "count_list (drop (length (in_events el)) (in_events el')) ''change'' = 1"
    by (simp_all add: el'_def)
  from safe old typed fields counts show ?thesis
    by blast
qed

theorem type_into_plain_text_input_witness:
  "plainTextInput search_box
   \<and> (\<exists>el'. setValueReactSafe (Some search_box) ''hello'' = (True, Some el')
             \<and> in_value el' = ''hello''
             \<and> in_events el' = [''focus'', ''input'', ''change''])"
proof -
  have plain: "plainTextInput search_box"
    by code_simp
  have before: "in_events search_box = [''focus'']"
    by (simp add: search_box_def)
  from type_into_plain_text_input
         [OF plain, of "\<lambda>e t. (\<lparr>to_ok = False, to_mode = ''none''\<rparr>, Some e)" "''hello''"] before
  have "\<exists>el'. setValueReactSafe (Some search_box) ''hello'' = (True, Some el')
             \<and> in_value el' = ''hello''
             \<and> in_events el' = [''focus'', ''input'', ''change'']"
    by auto
  with plain show ?thesis
    by blast
qed


section \<open>Properties of resolution with retry\<close>





lemma pausesOf_append: "pausesOf (xs @ ys) = pausesOf xs @ pausesOf ys"
  by (induction xs rule: pausesOf.induct) simp_all



















section \<open>Properties of the orchestration loop\<close>

declare postNavCapture.simps [simp del]


lemma ticks:
  "t + 2 = Suc (Suc t)" "t + 3 = Suc (Suc (Suc t))" "t + 4 = Suc (Suc (Suc (Suc t)))"
  "t + 5 = Suc (Suc (Suc (Suc (Suc t))))" "t + 6 = Suc (Suc (Suc (Suc (Suc (Suc t)))))"
  "2 + t = Suc (Suc t)" "3 + t = Suc (Suc (Suc t))" "4 + t = Suc (Suc (Suc (Suc t)))"
  "5 + t = Suc (Suc (Suc (Suc (Suc t))))" "6 + t = Suc (Suc (Suc (Suc (Suc (Suc t)))))"
  by simp_all

lemma postNavCapture_exhausted: "postNavCapture env (Suc (Suc (Suc 0))) st = (False, st)"
  by (simp add: postNavCapture.simps [of env "Suc (Suc (Suc 0))" st] maxCaptureAttempts_def)

lemma postNavCapture_third:
  "postNavCapture env (Suc (Suc 0)) st =
     (case acceptedCapture (env_capture env (ls_tick st + 1)) of
        Some d \<Rightarrow> (True, st\<lparr>ls_currentDom := Some d, ls_tick := ls_tick st + 2,
                             ls_trace := ls_trace st @ [Delay 1600, Capture]\<rparr>)
      | None \<Rightarrow> (False, st\<lparr>ls_tick := ls_tick st + 2,
                            ls_trace := ls_trace st @ [Delay 1600, Capture]\<rparr>))"
  by (simp add: postNavCapture.simps [of env "Suc (Suc 0)" st] maxCaptureAttempts_def Let_def
        captureDOMFromPage_def delay_def postNavCapture_exhausted ticks split: option.splits)

lemma postNavCapture_second:
  "postNavCapture env (Suc 0) st =
     (case acceptedCapture (env_capture env (ls_tick st + 1)) of
        Some d \<Rightarrow> (True, st\<lparr>ls_currentDom := Some d, ls_tick := ls_tick st + 2,
                             ls_trace := ls_trace st @ [Delay 800, Capture]\<rparr>)
      | None \<Rightarrow>
          (case acceptedCapture (env_capture env (ls_tick st + 3)) of
             Some d \<Rightarrow> (True, st\<lparr>ls_currentDom := Some d, ls_tick := ls_tick st + 4,
                                  ls_trace := ls_trace st @ [Delay 800, Capture, Delay 1600, Capture]\<rparr>)
           | None \<Rightarrow> (False, st\<lparr>ls_tick := ls_tick st + 4,
                                 ls_trace := ls_trace st @ [Delay 800, Capture, Delay 1600, Capture]\<rparr>)))"
  by (simp add: postNavCapture.simps [of env "Suc 0" st] maxCaptureAttempts_def Let_def
        captureDOMFromPage_def delay_def postNavCapture_third ticks split: option.splits)

lemma postNavCapture_first:
  "postNavCapture env 0 st =
     (case acceptedCapture (env_capture env (ls_tick st)) of
        Some d \<Rightarrow> (True, st\<lparr>ls_currentDom := Some d, ls_tick := ls_tick st + 1,
                             ls_trace := ls_trace st @ [Capture]\<rparr>)
      | None \<Rightarrow>
          (case acceptedCapture (env_capture env (ls_tick st + 2)) of
             Some d \<Rightarrow> (True, st\<lparr>ls_currentDom := Some d, ls_tick := ls_tick st + 3,
                                  ls_trace := ls_trace st @ [Capture, Delay 800, Capture]\<rparr>)
           | None \<Rightarrow>
               (case acceptedCapture (env_capture env (ls_tick st + 4)) of
                  Some d \<Rightarrow>
                    (True, st\<lparr>ls_currentDom := Some d, ls_tick := ls_tick st + 5,
                              ls_trace := ls_trace st @ [Capture, Delay 800, Capture, Delay 1600, Capture]\<rparr>)
                | None \<Rightarrow>
                    (False, st\<lparr>ls_tick := ls_tick st + 5,
                               ls_trace := ls_trace st @ [Capture, Delay 800, Capture, Delay 1600, Capture]\<rparr>))))"
  by (simp add: postNavCapture.simps [of env 0 st] maxCaptureAttempts_def Let_def
        captureDOMFromPage_def postNavCapture_second ticks split: option.splits)

lemma navigationRecovery_cases:
  "navigationRecovery env st =
     (case acceptedCapture (env_capture env (ls_tick st + 1)) of
        Some d \<Rightarrow> st\<lparr>ls_currentDom := Some d, ls_tick := ls_tick st + 2,
                      ls_trace := ls_trace st @ [Delay 2500, Capture]\<rparr>
      | None \<Rightarrow>
          (case acceptedCapture (env_capture env (ls_tick st + 3)) of
             Some d \<Rightarrow> st\<lparr>ls_currentDom := Some d, ls_tick := ls_tick st + 4,
                           ls_trace := ls_trace st @ [Delay 2500, Capture, Delay 800, Capture]\<rparr>
           | None \<Rightarrow>
               (case acceptedCapture (env_capture env (ls_tick st + 5)) of
                  Some d \<Rightarrow>
                    st\<lparr>ls_currentDom := Some d, ls_tick := ls_tick st + 6,
                       ls_trace := ls_trace st
                         @ [Delay 2500, Capture, Delay 800, Capture, Delay 1600, Capture]\<rparr>
                | None \<Rightarrow>
                    st\<lparr>ls_currentDom := None, ls_tick := ls_tick st + 6,
                       ls_trace := ls_trace st
                         @ [Delay 2500, Capture, Delay 800, Capture, Delay 1600, Capture]\<rparr>)))"
  by (simp add: navigationRecovery_def postNavCapture_first delay_def ticks split: option.splits)








subsection \<open>What one iteration does to the counters\<close>

lemma navigationRecovery_counters:
  "ls_iteration (navigationRecovery env st) = ls_iteration st"
  "executions (navigationRecovery env st) = executions st"
  "planRequests (navigationRecovery env st) = planRequests st"
  "ls_previousResult (navigationRecovery env st) = ls_previousResult st"
  by (simp_all add: navigationRecovery_cases executions_def planRequests_def split: option.splits)

lemma finishIteration_counters:
  "ls_iteration (finishIteration env st) = ls_iteration st + 1"
  "executions (finishIteration env st) = executions st"
  "planRequests (finishIteration env st) = planRequests st"
  by (simp_all add: finishIteration_def Let_def delay_def executions_def planRequests_def)

lemma currentDom_counters:
  "executions (st\<lparr>ls_currentDom := d\<rparr>) = executions st"
  "planRequests (st\<lparr>ls_currentDom := d\<rparr>) = planRequests st"
  by (simp_all add: executions_def planRequests_def)

lemma afterSuccess_counters:
  "ls_iteration (afterSuccess env r st) = ls_iteration st + 1"
  "executions (afterSuccess env r st) = executions st"
  "planRequests (afterSuccess env r st) = planRequests st"
  by (simp_all add: afterSuccess_def finishIteration_counters navigationRecovery_counters
        currentDom_counters)

lemma ensureDom_iteration:
  "ensureDom env st = Inl (oc, st') \<Longrightarrow> ls_iteration st' = ls_iteration st"
  "ensureDom env st = Inr (d, st') \<Longrightarrow> ls_iteration st' = ls_iteration st"
  by (auto simp add: ensureDom_def captureDOMFromPage_def delay_def Let_def
        split: option.splits)

lemma planPhase_iteration:
  "planPhase env d st = Inl (oc, st') \<Longrightarrow> ls_iteration st' = ls_iteration st"
  "planPhase env d st = Inr (a, st') \<Longrightarrow> ls_iteration st' = ls_iteration st"
  by (auto simp add: planPhase_def requestNextAction_def
        split: plan_response.splits option.splits if_splits)

lemma executePhase_iteration:
  "executePhase env a st = Inl (oc, st') \<Longrightarrow> ls_iteration st' = ls_iteration st"
  "executePhase env a st = Inr (r, st') \<Longrightarrow> ls_iteration st' = ls_iteration st"
  by (auto simp add: executePhase_def executeActionOnPage_def
        split: exec_response.splits option.splits if_splits)

lemma recoverFromFailure_iteration:
  "recoverFromFailure env r st = Next st' \<Longrightarrow> ls_iteration st' = ls_iteration st"
  "recoverFromFailure env r st = Done oc st' \<Longrightarrow> ls_iteration st' = ls_iteration st"
  by (auto simp add: recoverFromFailure_def captureDOMFromPage_def delay_def Let_def
        split: option.splits if_splits)

lemma loopBody_iteration:
  "loopBody env st = Next st' \<Longrightarrow> ls_iteration st' \<le> ls_iteration st + 1"
  "loopBody env st = Done oc st' \<Longrightarrow> ls_iteration st' = ls_iteration st"
proof -
  show "ls_iteration st' \<le> ls_iteration st + 1" if "loopBody env st = Next st'"
    using that
    by (auto simp add: loopBody_def afterSuccess_counters
          dest!: ensureDom_iteration planPhase_iteration executePhase_iteration
                 recoverFromFailure_iteration
          split: sum.splits prod.splits if_splits)
  show "ls_iteration st' = ls_iteration st" if "loopBody env st = Done oc st'"
    using that
    by (auto simp add: loopBody_def
          dest!: ensureDom_iteration planPhase_iteration executePhase_iteration
                 recoverFromFailure_iteration
          split: sum.splits prod.splits if_splits)
qed

lemma automationLoop_iteration_bound:
  assumes "automationLoop env st = Some y"
  shows "ls_iteration st \<le> maxIterations \<longrightarrow> ls_iteration (snd y) \<le> maxIterations"
proof (rule automationLoop.raw_induct
         [where P = "\<lambda>env st y. ls_iteration st \<le> maxIterations
                       \<longrightarrow> ls_iteration (snd y) \<le> maxIterations", OF _ assms])
  fix loop env st y
  assume IH: "\<And>env st y. loop env st = Some y \<Longrightarrow>
                 ls_iteration st \<le> maxIterations \<longrightarrow> ls_iteration (snd y) \<le> maxIterations"
    and unfolded: "(if ls_iteration st < maxIterations
                    then case loopBody env st of
                           Next st' \<Rightarrow> loop env st'
                         | Done oc st' \<Rightarrow> Some (oc, st')
                    else Some (limitOutcome, st)) = Some y"
  show "ls_iteration st \<le> maxIterations \<longrightarrow> ls_iteration (snd y) \<le> maxIterations"
  proof (cases "ls_iteration st < maxIterations")
    case False
    with unfolded show ?thesis by auto
  next
    case True
    show ?thesis
    proof (cases "loopBody env st")
      case (Done oc1 st1)
      with unfolded True loopBody_iteration(2) [of env st oc1 st1] show ?thesis
        by auto
    next
      case (Next st1)
      with True loopBody_iteration(1) [of env st st1] have "ls_iteration st1 \<le> maxIterations"
        by simp
      moreover from unfolded True Next have "loop env st1 = Some y"
        by simp
      ultimately show ?thesis
        using IH [of env st1 y] by simp
    qed
  qed
qed


subsection \<open>Runs in which every action succeeds\<close>




subsection \<open>Runs without a transient failure\<close>






subsection \<open>Runs with transient failures\<close>

text \<open>
  After a failure that the loop takes for transient, \<open>continue\<close> restarts the \<open>while\<close>
  loop before \<open>iteration += 1\<close> is reached. The action has been sent to the page, and
  the iteration is not counted; when every action fails in this way the loop does not
  end.
\<close>

lemma element_missing_is_transient: "isTransient element_missing"
  by code_simp

lemma flaky_pass:
  assumes "ls_currentDom st \<noteq> None"
  shows "\<exists>st'. loopBody flaky_env st = Next st' \<and> ls_iteration st' = ls_iteration st
           \<and> executions st' = executions st + 1 \<and> ls_currentDom st' \<noteq> None"
proof -
  from assms obtain d where d: "ls_currentDom st = Some d"
    by auto
  have failed: "ex_success element_missing = Some False"
    "ex_new_dom element_missing = Some one_element_snapshot"
    by (simp_all add: element_missing_def clicked_def)
  show ?thesis
    by (simp add: loopBody_def ensureDom_def d planPhase_def requestNextAction_def
          executePhase_def executeActionOnPage_def recoverFromFailure_def
          element_missing_is_transient failed flaky_env_def steady_env_def keep_going_def
          delay_def executions_def)
qed

lemma flaky_run_has_no_result:
  assumes "automationLoop env st = Some y"
  shows "env = flaky_env \<and> ls_iteration st < maxIterations \<and> ls_currentDom st \<noteq> None
           \<longrightarrow> False"
proof (rule automationLoop.raw_induct
         [where P = "\<lambda>env st y. env = flaky_env \<and> ls_iteration st < maxIterations
                       \<and> ls_currentDom st \<noteq> None \<longrightarrow> False", OF _ assms])
  fix loop env st y
  assume IH: "\<And>env st y. loop env st = Some y \<Longrightarrow>
                 env = flaky_env \<and> ls_iteration st < maxIterations \<and> ls_currentDom st \<noteq> None
                   \<longrightarrow> False"
    and unfolded: "(if ls_iteration st < maxIterations
                    then case loopBody env st of
                           Next st' \<Rightarrow> loop env st'
                         | Done oc st' \<Rightarrow> Some (oc, st')
                    else Some (limitOutcome, st)) = Some y"
  show "env = flaky_env \<and> ls_iteration st < maxIterations \<and> ls_currentDom st \<noteq> None
          \<longrightarrow> False"
  proof
    assume a: "env = flaky_env \<and> ls_iteration st < maxIterations \<and> ls_currentDom st \<noteq> None"
    with flaky_pass [of st] obtain st' where pass: "loopBody env st = Next st'"
      and same: "ls_iteration st' = ls_iteration st" and dom: "ls_currentDom st' \<noteq> None"
      by auto
    from unfolded a pass have "loop env st' = Some y"
      by simp
    from IH [OF this] a same dom show False
      by simp
  qed
qed

lemma transient_failures_never_end:
  "startAutomationLoop flaky_env (Some one_element_snapshot) = None"
proof (cases "startAutomationLoop flaky_env (Some one_element_snapshot)")
  case None
  then show ?thesis .
next
  case (Some y)
  then have "automationLoop flaky_env (initialState (Some one_element_snapshot)) = Some y"
    by (simp add: startAutomationLoop_def)
  from flaky_run_has_no_result [OF this] show ?thesis
    by (simp add: initialState_def maxIterations_def)
qed





subsection \<open>Cancellation\<close>

lemma calls_ignore_stop:
  "captureDOMFromPage (env\<lparr>env_stopRequested := f\<rparr>) st = captureDOMFromPage env st"
  "requestNextAction (env\<lparr>env_stopRequested := f\<rparr>) d p st = requestNextAction env d p st"
  "executeActionOnPage (env\<lparr>env_stopRequested := f\<rparr>) a st = executeActionOnPage env a st"
  by (simp_all add: captureDOMFromPage_def requestNextAction_def executeActionOnPage_def)

lemma phases_ignore_stop:
  "ensureDom (env\<lparr>env_stopRequested := f\<rparr>) st = ensureDom env st"
  "planPhase (env\<lparr>env_stopRequested := f\<rparr>) d st = planPhase env d st"
  "executePhase (env\<lparr>env_stopRequested := f\<rparr>) a st = executePhase env a st"
  "recoverFromFailure (env\<lparr>env_stopRequested := f\<rparr>) r st = recoverFromFailure env r st"
  "navigationRecovery (env\<lparr>env_stopRequested := f\<rparr>) st = navigationRecovery env st"
  by (simp_all add: ensureDom_def planPhase_def executePhase_def recoverFromFailure_def
        navigationRecovery_cases calls_ignore_stop split: option.splits)

lemma loopBody_without_stop:
  assumes "\<not> env_stopRequested env (ls_tick st)" and "loopBody env st = Next st1"
  shows "loopBody (env\<lparr>env_stopRequested := \<lambda>t. False\<rparr>) st = Next st1
         \<or> loopBody (env\<lparr>env_stopRequested := \<lambda>t. False\<rparr>) st = Next (delay 250 st1)"
  using assms
  by (auto simp add: loopBody_def phases_ignore_stop afterSuccess_def finishIteration_def Let_def
        split: sum.splits prod.splits if_splits)

lemma phase_outcomes:
  "ensureDom env st = Inl (oc, st') \<Longrightarrow> oc_status oc = ''error''"
  "planPhase env d st = Inl (oc, st') \<Longrightarrow> oc_status oc = ''error'' \<or> oc_status oc = ''success''"
  "executePhase env a st = Inl (oc, st') \<Longrightarrow> oc_status oc = ''error''"
  "recoverFromFailure env r st = Done oc st' \<Longrightarrow> oc_status oc = ''error''"
  by (auto simp add: ensureDom_def planPhase_def executePhase_def recoverFromFailure_def
        failureOutcome_def captureDOMFromPage_def requestNextAction_def executeActionOnPage_def
        Let_def
        split: option.splits plan_response.splits exec_response.splits if_splits)

lemma stopped_only_at_top:
  assumes "loopBody env st = Done oc st'" and "oc_status oc = ''stopped''"
  shows "st' = st \<and> env_stopRequested env (ls_tick st)"
  using assms
  by (auto simp add: loopBody_def
        dest!: phase_outcomes
        split: sum.splits prod.splits if_splits)


text \<open>
  C5, as stated: a stop request made while an iteration is in progress ends the session
  in the stopped outcome. In the run of \<open>completing_env\<close> the flag is not set at the top
  of the first iteration and is set while the planner is asked; the planner reports
  completion, and the session ends in success.
\<close>

theorem stop_during_last_step_counterexample:
  "env_stopRequested completing_env 0 = False
   \<and> env_stopRequested completing_env 1 = True
   \<and> startAutomationLoop completing_env (Some one_element_snapshot)
       = Some (Outcome ''success'' ''Saved'', completed_state)
   \<and> ls_trace completed_state = [Plan]"
proof -
  let ?st = "initialState (Some one_element_snapshot)"
  have body: "loopBody completing_env ?st = Done (Outcome ''success'' ''Saved'') completed_state"
    by (simp add: loopBody_def ensureDom_def planPhase_def requestNextAction_def
          completing_env_def steady_env_def initialState_def done_plan_def orText_def
          truthy_def completed_state_def)
  have running: "ls_iteration ?st < maxIterations"
    by (simp add: initialState_def maxIterations_def)
  have "automationLoop completing_env ?st = Some (Outcome ''success'' ''Saved'', completed_state)"
    by (subst automationLoop.simps) (simp only: running body if_True step_result.case)
  then have "startAutomationLoop completing_env (Some one_element_snapshot)
               = Some (Outcome ''success'' ''Saved'', completed_state)"
    by (simp only: startAutomationLoop_def)
  then show ?thesis
    by (simp add: completing_env_def completed_state_def)
qed

text \<open>
  C5, amended: the stop flag is read at the top of an iteration. When the flag is not set
  at that moment and is set while the iteration is in progress, the iteration does
  everything it does when stop is never requested, the action included; only the pause of
  250 ms at its end is skipped once the flag is up. If the iteration does not itself end
  the session and the iteration limit is not reached, the check at the top of the next
  iteration ends the session with the stopped outcome, before any further call. The
  stopped outcome arises at that check only, never inside an iteration.
\<close>

theorem stop_ends_session_at_next_check:
  assumes "ls_iteration st < maxIterations"
    and "\<not> env_stopRequested env (ls_tick st)"
    and "loopBody env st = Next st1"
    and "env_stopRequested env (ls_tick st1)"
    and "ls_iteration st1 < maxIterations"
  shows "automationLoop env st = Some (stoppedOutcome, st1)
         \<and> (loopBody (env\<lparr>env_stopRequested := \<lambda>t. False\<rparr>) st = Next st1
              \<or> loopBody (env\<lparr>env_stopRequested := \<lambda>t. False\<rparr>) st = Next (delay 250 st1))
         \<and> (\<forall>e s oc s'. loopBody e s = Done oc s' \<and> oc_status oc = ''stopped''
                \<longrightarrow> s' = s \<and> env_stopRequested e (ls_tick s))
         \<and> stoppedOutcome = Outcome ''stopped'' ''Execution stopped by user''"
proof -
  have top: "loopBody env st1 = Done stoppedOutcome st1"
    using assms(4) by (simp add: loopBody_def)
  have "automationLoop env st1 = Some (stoppedOutcome, st1)"
    by (subst automationLoop.simps) (simp only: assms(5) top if_True step_result.case)
  moreover have "automationLoop env st = automationLoop env st1"
    by (subst automationLoop.simps) (simp only: assms(1) assms(3) if_True step_result.case)
  ultimately have stopped: "automationLoop env st = Some (stoppedOutcome, st1)"
    by simp
  have complete: "loopBody (env\<lparr>env_stopRequested := \<lambda>t. False\<rparr>) st = Next st1
              \<or> loopBody (env\<lparr>env_stopRequested := \<lambda>t. False\<rparr>) st = Next (delay 250 st1)"
    using assms(2) assms(3) by (rule loopBody_without_stop)
  have only: "s' = s \<and> env_stopRequested e (ls_tick s)"
    if "loopBody e s = Done oc s' \<and> oc_status oc = ''stopped''" for e s oc s'
    using that stopped_only_at_top [of e s oc s'] by blast
  have name: "stoppedOutcome = Outcome ''stopped'' ''Execution stopped by user''"
    by (simp add: stoppedOutcome_def)
  from stopped complete only name show ?thesis
    by blast
qed

theorem stop_ends_session_at_next_check_witness:
  "\<not> env_stopRequested stopping_env (ls_tick (initialState (Some one_element_snapshot)))
   \<and> loopBody stopping_env (initialState (Some one_element_snapshot)) = Next stopped_state
   \<and> env_stopRequested stopping_env (ls_tick stopped_state)
   \<and> ls_trace stopped_state = [Plan, Execute click_action]
   \<and> startAutomationLoop stopping_env (Some one_element_snapshot)
       = Some (Outcome ''stopped'' ''Execution stopped by user'', stopped_state)"
proof -
  let ?st = "initialState (Some one_element_snapshot)"
  have first: "ls_iteration ?st < maxIterations"
    by (simp add: initialState_def maxIterations_def)
  have unset: "\<not> env_stopRequested stopping_env (ls_tick ?st)"
    by (simp add: stopping_env_def initialState_def)
  have body: "loopBody stopping_env ?st = Next stopped_state"
    by (simp add: loopBody_def ensureDom_def planPhase_def requestNextAction_def
          executePhase_def executeActionOnPage_def afterSuccess_def finishIteration_def
          stopping_env_def steady_env_def initialState_def keep_going_def clicked_def
          stopped_state_def)
  have set: "env_stopRequested stopping_env (ls_tick stopped_state)"
    by (simp add: stopping_env_def stopped_state_def)
  have more: "ls_iteration stopped_state < maxIterations"
    by (simp add: stopped_state_def maxIterations_def)
  have trace: "ls_trace stopped_state = [Plan, Execute click_action]"
    by (simp add: stopped_state_def)
  from stop_ends_session_at_next_check [OF first unset body set more]
  have "automationLoop stopping_env ?st = Some (stoppedOutcome, stopped_state)"
    by blast
  then have "startAutomationLoop stopping_env (Some one_element_snapshot)
               = Some (Outcome ''stopped'' ''Execution stopped by user'', stopped_state)"
    by (simp add: startAutomationLoop_def stoppedOutcome_def)
  with unset body set trace show ?thesis
    by blast
qed


end
